theory Spec2Isabelle
  imports Main
begin

section \<open>The raw payload of the Delivery API\<close>

text \<open>
  JSON values as the field mapper sees them. An array is a list of strings: the codenames
  of a linked-items value; the mapper only stores the arrays of the other field types.
\<close>

datatype raw_value =
    VUndefined
  | VNull
  | VBool bool
  | VNum int
  | VStr string
  | VArray "string list"

text \<open>JavaScript truthiness, as tested by \<^verbatim>\<open>!field.value\<close>.\<close>

fun truthy :: "raw_value \<Rightarrow> bool" where
  "truthy VUndefined = False"
| "truthy VNull = False"
| "truthy (VBool b) = b"
| "truthy (VNum n) = (n \<noteq> 0)"
| "truthy (VStr s) = (s \<noteq> [])"
| "truthy (VArray xs) = True"

record raw_link =
  rl_codename :: string
  rl_type :: string
  rl_url_slug :: string

text \<open>
  \<^verbatim>\<open>FieldInterfaces.IField\<close> and \<^verbatim>\<open>IRichTextField\<close>. \<open>f_modular_content\<close> is
  \<open>None\<close> when the property is falsy or not an array (both skip the loop of
  \<^verbatim>\<open>mapRichTextField\<close>); \<open>f_links\<close> is \<open>None\<close> when the property is undefined.
\<close>

record raw_field =
  f_name :: string
  f_type :: string
  f_value :: raw_value
  f_taxonomy_group :: "string option"
  f_modular_content :: "string list option"
  f_links :: "(string \<times> raw_link) list option"

record system_attributes =
  sys_id :: string
  sys_codename :: string
  sys_type :: string
  sys_language :: string

text \<open>
  A raw item: \<open>system\<close> and \<open>elements\<close> may be missing. The elements keep the order of
  \<^verbatim>\<open>Object.getOwnPropertyNames\<close>; the keys of a JavaScript object are distinct.
\<close>

record raw_item =
  ri_system :: "system_attributes option"
  ri_elements :: "(string \<times> raw_field) list option"

text \<open>
  The sibling payload \<^verbatim>\<open>modularContent\<close>: the own properties of the object, raw items by
  codename.
\<close>

type_synonym modular_content = "(string \<times> raw_item) list"

text \<open>
  The names under which every JavaScript object has a value although it has no property
  of its own with that name: the members inherited from \<^verbatim>\<open>Object.prototype\<close>. The value
  is a function, or the prototype itself for \<^verbatim>\<open>__proto__\<close>: it is truthy, and it has no
  property \<open>system\<close> or \<open>elements\<close>.
\<close>

definition object_members :: "string list" where
  "object_members =
     [''constructor'', ''hasOwnProperty'', ''isPrototypeOf'', ''propertyIsEnumerable'',
      ''toLocaleString'', ''toString'', ''valueOf'', ''__proto__'', ''__defineGetter__'',
      ''__defineSetter__'', ''__lookupGetter__'', ''__lookupSetter__'']"

text \<open>
  \<^verbatim>\<open>modularContent[codename]\<close>: the item of the payload under that key; without such a
  key, the inherited member of that name, which the mapper reads like an item that has
  neither \<open>system\<close> nor \<open>elements\<close>; else \<open>undefined\<close> (\<open>None\<close>).
\<close>

definition payload_lookup :: "modular_content \<Rightarrow> string \<Rightarrow> raw_item option" where
  "payload_lookup modularContent codename =
     (case map_of modularContent codename of
        Some i \<Rightarrow> Some i
      | None \<Rightarrow>
          (if codename \<in> set object_members
           then Some \<lparr>ri_system = None, ri_elements = None\<rparr>
           else None))"

section \<open>Typed items, fields and the store\<close>

type_synonym addr = nat

record link =
  linkId :: string
  link_codename :: string
  link_type :: string
  link_urlSlug :: string

text \<open>
  The link resolver that a url slug field receives: a function, \<open>undefined\<close>, or the value
  that an element has been mapped to under the property name \<open>linkResolver\<close> of the item
  (no function).
\<close>

datatype link_resolver = ResolverFunction "link \<Rightarrow> string" | NoResolver | AssignedValue

text \<open>
  What \<^verbatim>\<open>mapField\<close> returns. A linked-items field is the bare array built by
  \<^verbatim>\<open>mapModularField\<close> (or \<open>null\<close>); its members are references into the store. The
  parser, the type resolver service, the logging flag and the query configuration that the
  constructors of \<^verbatim>\<open>RichTextField\<close> and \<^verbatim>\<open>UrlSlugField\<close> also receive are passed on
  unchanged and left out. Modelled from the spec: the classes \<^verbatim>\<open>Fields.*\<close> are not among
  the sources; a field object has no property \<open>codename\<close>.
\<close>

datatype field_value =
    ModularItems "addr list"
  | NullField
  | TextField string raw_value
  | AssetsField string raw_value
  | NumberField string raw_value
  | MultipleChoiceField string raw_value
  | DateTimeField string raw_value
  | RichTextField string raw_value "addr list" "link list"
  | UrlSlugField string raw_value addr link_resolver
  | TaxonomyField string raw_value "string option"

text \<open>
  Modelled from the spec: \<^verbatim>\<open>TypeResolverService\<close> and \<^verbatim>\<open>FieldDecorators\<close> are not
  among the sources. The registry maps a content-type discriminator to what the registered
  class gives its instances: an optional property resolver, the statically declared
  property names (\<^verbatim>\<open>FieldDecorators.getPropertyName\<close>) and an optional link resolver. A
  type without an entry falls back to the generic \<^verbatim>\<open>ContentItem\<close>.
\<close>

record type_resolver =
  tr_propertyResolver :: "(string \<Rightarrow> string option) option"
  tr_decorated :: "string \<Rightarrow> string option"
  tr_linkResolver :: "(link \<Rightarrow> string) option"

text \<open>
  A typed item: what it is created with (the system attributes and the members of its
  class), and the properties that the mapper has assigned to it since, by name. An
  assignment under the name of a member (\<open>system\<close>, \<open>propertyResolver\<close>, \<open>linkResolver\<close>)
  replaces the member: a member is read from \<open>ti_props\<close> first.
\<close>

record typed_item =
  ti_system :: system_attributes
  ti_class :: "type_resolver option"
  ti_props :: "(string \<times> field_value) list"

record config =
  enableAdvancedLogging :: bool
  typeResolvers :: "(string \<times> type_resolver) list"

record item_query_config =
  qc_linkResolver :: "(link \<Rightarrow> string) option"

datatype warning =
    WarnUnsupportedFieldType string
  | WarnModularValueMissing string
  | WarnModularItemMissing string
  | WarnLinkedItemMissing string
  | WarnNoRichTextResolver string string
  | WarnImageItemMissing string string
  | WarnLinkNotFound string
  | WarnUrlNotResolved string string

text \<open>
  Every \<^verbatim>\<open>throw Error(...)\<close> of the two services, and the \<open>TypeError\<close> that JavaScript
  raises when a property of \<open>undefined\<close> or \<open>null\<close> is read or a value that is no function
  is called.
\<close>

datatype malformed = NoSystem | NoElements string

datatype error =
    ItemNotDefined
  | MalformedResponse malformed
  | ProcessedItemsNotInitialized
  | ProcessedItemsNotArray
  | UnsupportedFieldType string
  | ModularItemNotInResponse string string
  | TypeError
  | LinkedItemNotFound string
  | ImageItemNotFound string string
  | InvalidElement string string
  | ImageNotFound string string string

text \<open>
  The store of one mapping pass: the typed items created so far (an address is an index),
  the contents of the shared \<^verbatim>\<open>processedItems\<close> array (references), and the console.
  A JavaScript array holds its objects, so a reference in \<open>processed\<close> is the address of
  an object of the heap.
\<close>

record mstate =
  heap :: "typed_item list"
  processed :: "addr list"
  warnings :: "warning list"

text \<open>
  The \<^verbatim>\<open>processedItems\<close> argument as the caller passes it: \<open>null\<close>/\<open>undefined\<close>, a
  value that is not an array (with its truthiness), or the shared array, whose contents are
  in the store.
\<close>

datatype processed_arg = Nullish | NotArray bool | SharedArray

text \<open>A result: \<open>None\<close> when the recursion budget is exhausted, else the value or the thrown error, with the store.\<close>

type_synonym 'a result = "((error + 'a) \<times> mstate) option"

text \<open>Sequencing: an exception, or a missing result, of the first step ends the computation.\<close>

definition and_then :: "'a result \<Rightarrow> ('a \<Rightarrow> mstate \<Rightarrow> 'b result) \<Rightarrow> 'b result" where
  "and_then r k =
     (case r of
        None \<Rightarrow> None
      | Some (Inl e, st) \<Rightarrow> Some (Inl e, st)
      | Some (Inr v, st) \<Rightarrow> k v st)"

definition warn :: "config \<Rightarrow> warning \<Rightarrow> mstate \<Rightarrow> mstate" where
  "warn cfg w st = (if enableAdvancedLogging cfg then st\<lparr>warnings := warnings st @ [w]\<rparr> else st)"

text \<open>
  Modelled from the spec: the enum \<^verbatim>\<open>FieldType\<close> is not among the sources; its nine
  members are the closed set of type strings.
\<close>

datatype FieldType =
  ft_text | ft_number | ft_datetime | ft_multiple_choice | ft_asset | ft_rich_text
  | ft_url_slug | ft_taxonomy | ft_modular_content

fun toString :: "FieldType \<Rightarrow> string" where
  "toString ft_text = ''text''"
| "toString ft_number = ''number''"
| "toString ft_datetime = ''datetime''"
| "toString ft_multiple_choice = ''multiple_choice''"
| "toString ft_asset = ''asset''"
| "toString ft_rich_text = ''rich_text''"
| "toString ft_url_slug = ''url_slug''"
| "toString ft_taxonomy = ''taxonomy''"
| "toString ft_modular_content = ''modular_content''"

section \<open>FieldMapService\<close>

text \<open>
  \<^verbatim>\<open>m.system.codename\<close> of a typed item \<open>m\<close>: the codename of its system attributes.
  When an element has been mapped to the property \<open>system\<close>, the property holds the mapped
  value: reading \<open>codename\<close> of \<open>null\<close> raises a \<open>TypeError\<close>, and an array or a field object
  has no \<open>codename\<close> (\<open>undefined\<close>, here \<open>None\<close>).
\<close>

definition system_codename :: "typed_item \<Rightarrow> error + string option" where
  "system_codename m =
     (case map_of (ti_props m) ''system'' of
        None \<Rightarrow> Inr (Some (sys_codename (ti_system m)))
      | Some NullField \<Rightarrow> Inl TypeError
      | Some v \<Rightarrow> Inr None)"

text \<open>
  \<^verbatim>\<open>processedItems.find(m => m.system.codename === x.system.codename)\<close>, where \<open>codename\<close>
  is \<open>None\<close> when \<open>x.system\<close> is undefined. The callback runs once per processed item, up to
  the first match; it reads the left operand first and raises a \<open>TypeError\<close> when either
  \<open>system\<close> has no properties to read.
\<close>

fun find_item :: "typed_item list \<Rightarrow> string option \<Rightarrow> addr list \<Rightarrow> error + addr option" where
  "find_item h codename [] = Inr None"
| "find_item h codename (m # ms) =
     (case system_codename (h ! m) of
        Inl e \<Rightarrow> Inl e
      | Inr left \<Rightarrow>
          (case codename of
             None \<Rightarrow> Inl TypeError
           | Some c \<Rightarrow> (if left = Some c then Inr (Some m) else find_item h codename ms)))"

definition find_processed :: "mstate \<Rightarrow> string option \<Rightarrow> error + addr option" where
  "find_processed st codename = find_item (heap st) codename (processed st)"

text \<open>
  Modelled from the spec: \<^verbatim>\<open>hasTypeResolver\<close>, \<^verbatim>\<open>createTypedObj\<close> and
  \<^verbatim>\<open>createContentItem\<close> of the type resolver service. The new object carries the system
  attributes of the raw item and the members of its class as properties of its own, and no
  mapped property yet.
\<close>

definition hasTypeResolver :: "config \<Rightarrow> string \<Rightarrow> bool" where
  "hasTypeResolver cfg t = (map_of (typeResolvers cfg) t \<noteq> None)"

definition createTypedObj :: "config \<Rightarrow> string \<Rightarrow> system_attributes \<Rightarrow> typed_item" where
  "createTypedObj cfg t s = \<lparr>ti_system = s, ti_class = map_of (typeResolvers cfg) t, ti_props = []\<rparr>"

definition createContentItem :: "system_attributes \<Rightarrow> typed_item" where
  "createContentItem s = \<lparr>ti_system = s, ti_class = None, ti_props = []\<rparr>"

text \<open>\<^verbatim>\<open>new\<close>: the object gets a fresh address.\<close>

definition alloc :: "typed_item \<Rightarrow> mstate \<Rightarrow> addr \<times> mstate" where
  "alloc obj st = (length (heap st), st\<lparr>heap := heap st @ [obj]\<rparr>)"

text \<open>
  \<^verbatim>\<open>itemTyped[propertyName] = v\<close>: an existing property keeps its place. Under the name
  \<^verbatim>\<open>__proto__\<close> the assignment runs the setter inherited from \<^verbatim>\<open>Object.prototype\<close>, which
  replaces the prototype of the object by \<open>v\<close> and gives the object no property.
\<close>

fun assign :: "string \<Rightarrow> field_value \<Rightarrow> (string \<times> field_value) list \<Rightarrow> (string \<times> field_value) list" where
  "assign k v [] = [(k, v)]"
| "assign k v ((k', v') # ps) = (if k = k' then (k, v) # ps else (k', v') # assign k v ps)"

definition set_property :: "addr \<Rightarrow> string \<Rightarrow> field_value \<Rightarrow> mstate \<Rightarrow> mstate" where
  "set_property a k v st =
     (if k = ''__proto__'' then st
      else st\<lparr>heap := (heap st)[a := (heap st ! a)\<lparr>ti_props := assign k v (ti_props (heap st ! a))\<rparr>]\<rparr>)"

text \<open>
  The property name of an element: the item's property resolver, else the decorator,
  else the element's codename; an empty or undefined name counts as unresolved. When an
  element has been mapped to the property \<open>propertyResolver\<close>, the test
  \<^verbatim>\<open>itemTyped.propertyResolver\<close> reads the mapped value: \<open>null\<close> skips the call, and an
  array or a field object is truthy and no function, so that the call raises a \<open>TypeError\<close>.
\<close>

definition falsy_name :: "string option \<Rightarrow> bool" where
  "falsy_name p = (case p of None \<Rightarrow> True | Some s \<Rightarrow> s = [])"

definition propertyName :: "typed_item \<Rightarrow> string \<Rightarrow> error + string" where
  "propertyName itemTyped fieldName =
     (case (case map_of (ti_props itemTyped) ''propertyResolver'' of
              Some NullField \<Rightarrow> Inr None
            | Some v \<Rightarrow> Inl TypeError
            | None \<Rightarrow>
                Inr (case ti_class itemTyped of
                       None \<Rightarrow> None
                     | Some cls \<Rightarrow>
                         (case tr_propertyResolver cls of None \<Rightarrow> None | Some r \<Rightarrow> r fieldName))) of
        Inl e \<Rightarrow> Inl e
      | Inr p1 \<Rightarrow>
          (let p2 = (if falsy_name p1
                     then (case ti_class itemTyped of None \<Rightarrow> None | Some cls \<Rightarrow> tr_decorated cls fieldName)
                     else p1)
           in Inr (if falsy_name p2 then fieldName else the p2)))"

definition mapRichTextLinks :: "(string \<times> raw_link) list \<Rightarrow> link list" where
  "mapRichTextLinks linksJson =
     map (\<lambda>(linkItemId, linkRaw).
            \<lparr>linkId = linkItemId, link_codename = rl_codename linkRaw,
             link_type = rl_type linkRaw, link_urlSlug = rl_url_slug linkRaw\<rparr>) linksJson"

text \<open>
  \<^verbatim>\<open>getLinkResolverForUrlSlugField\<close>: the resolver of the query configuration when it is
  set, else \<^verbatim>\<open>item.linkResolver\<close>, whatever it holds.
\<close>

definition getLinkResolverForUrlSlugField :: "typed_item \<Rightarrow> item_query_config \<Rightarrow> link_resolver" where
  "getLinkResolverForUrlSlugField item queryConfig =
     (case qc_linkResolver queryConfig of
        Some r \<Rightarrow> ResolverFunction r
      | None \<Rightarrow>
          (case map_of (ti_props item) ''linkResolver'' of
             Some v \<Rightarrow> AssignedValue
           | None \<Rightarrow>
               (case ti_class item of
                  None \<Rightarrow> NoResolver
                | Some cls \<Rightarrow>
                    (case tr_linkResolver cls of None \<Rightarrow> NoResolver | Some r \<Rightarrow> ResolverFunction r))))"

definition mapUrlSlugField :: "raw_field \<Rightarrow> addr \<Rightarrow> item_query_config \<Rightarrow> mstate \<Rightarrow> field_value" where
  "mapUrlSlugField field item queryConfig st =
     UrlSlugField (f_name field) (f_value field) item
       (getLinkResolverForUrlSlugField (heap st ! item) queryConfig)"

text \<open>
  The loop of \<^verbatim>\<open>mapModularField\<close> over the codenames of the field. \<open>rec\<close> is the
  recursive call of \<^verbatim>\<open>mapFields\<close> with the same sibling payload, query configuration and
  shared array. A value of the payload without \<open>system\<close> raises a \<open>TypeError\<close> in the
  callback of \<^verbatim>\<open>find\<close> unless the array is empty.
\<close>

fun mapModularItems ::
  "(raw_item \<Rightarrow> mstate \<Rightarrow> addr result) \<Rightarrow> config \<Rightarrow> raw_field \<Rightarrow> modular_content \<Rightarrow>
   string list \<Rightarrow> addr list \<Rightarrow> mstate \<Rightarrow> (addr list) result" where
  "mapModularItems rec cfg field mc [] modularContentItems st = Some (Inr modularContentItems, st)"
| "mapModularItems rec cfg field mc (modularItemCodename # rest) modularContentItems st =
     (case payload_lookup mc modularItemCodename of
        None \<Rightarrow>
          mapModularItems rec cfg field mc rest modularContentItems
            (warn cfg (WarnModularItemMissing (f_name field)) st)
      | Some modularItem \<Rightarrow>
          (case find_processed st (map_option sys_codename (ri_system modularItem)) of
             Inl e \<Rightarrow> Some (Inl e, st)
           | Inr (Some processedItem) \<Rightarrow>
               mapModularItems rec cfg field mc rest (modularContentItems @ [processedItem]) st
           | Inr None \<Rightarrow>
               and_then (rec modularItem st)
                 (\<lambda>newModularItem st'.
                    mapModularItems rec cfg field mc rest
                      (modularContentItems @ [newModularItem]) st')))"

text \<open>
  \<^verbatim>\<open>mapModularField\<close>. A value that is not truthy gives \<open>null\<close>; a truthy value
  without \<^verbatim>\<open>forEach\<close> raises a \<open>TypeError\<close>. The test \<^verbatim>\<open>!field\<close> of the source is
  left out: \<^verbatim>\<open>mapField\<close> has read \<^verbatim>\<open>field.type\<close> before the call.
\<close>

definition mapModularField ::
  "(raw_item \<Rightarrow> mstate \<Rightarrow> addr result) \<Rightarrow> config \<Rightarrow> raw_field \<Rightarrow> modular_content \<Rightarrow>
   mstate \<Rightarrow> field_value result" where
  "mapModularField rec cfg field mc st =
     (if \<not> truthy (f_value field)
      then Some (Inr NullField, warn cfg (WarnModularValueMissing (f_name field)) st)
      else
        (case f_value field of
           VArray fieldModularContent \<Rightarrow>
             and_then (mapModularItems rec cfg field mc fieldModularContent [] st)
               (\<lambda>modularContentItems st'. Some (Inr (ModularItems modularContentItems), st'))
         | _ \<Rightarrow> Some (Inl TypeError, st)))"

text \<open>
  The loop of \<^verbatim>\<open>mapRichTextField\<close> over \<^verbatim>\<open>field.modular_content\<close>: the guard
  \<^verbatim>\<open>!modularContentItem\<close>, then the call of \<^verbatim>\<open>mapFields\<close>.
\<close>

fun mapRichTextItems ::
  "(raw_item \<Rightarrow> mstate \<Rightarrow> addr result) \<Rightarrow> raw_field \<Rightarrow> modular_content \<Rightarrow>
   string list \<Rightarrow> addr list \<Rightarrow> mstate \<Rightarrow> (addr list) result" where
  "mapRichTextItems rec field mc [] modularItems st = Some (Inr modularItems, st)"
| "mapRichTextItems rec field mc (codename # rest) modularItems st =
     (case payload_lookup mc codename of
        None \<Rightarrow> Some (Inl (ModularItemNotInResponse codename (f_name field)), st)
      | Some modularContentItem \<Rightarrow>
          and_then (rec modularContentItem st)
            (\<lambda>modularItem st'.
               mapRichTextItems rec field mc rest (modularItems @ [modularItem]) st'))"

text \<open>
  \<^verbatim>\<open>mapRichTextField\<close>: the embedded items first, then the links
  (\<^verbatim>\<open>Object.keys\<close> of an undefined \<^verbatim>\<open>links\<close> raises a \<open>TypeError\<close>).
\<close>

definition mapRichTextField ::
  "(raw_item \<Rightarrow> mstate \<Rightarrow> addr result) \<Rightarrow> raw_field \<Rightarrow> modular_content \<Rightarrow>
   mstate \<Rightarrow> field_value result" where
  "mapRichTextField rec field mc st =
     and_then
       (mapRichTextItems rec field mc
          (case f_modular_content field of None \<Rightarrow> [] | Some cs \<Rightarrow> cs) [] st)
       (\<lambda>modularItems st'.
          (case f_links field of
             None \<Rightarrow> Some (Inl TypeError, st')
           | Some linksJson \<Rightarrow>
               Some (Inr (RichTextField (f_name field) (f_value field) modularItems
                            (mapRichTextLinks linksJson)), st')))"

definition mapDateTimeField :: "raw_field \<Rightarrow> field_value" where
  "mapDateTimeField field = DateTimeField (f_name field) (f_value field)"

definition mapMultipleChoiceField :: "raw_field \<Rightarrow> field_value" where
  "mapMultipleChoiceField field = MultipleChoiceField (f_name field) (f_value field)"

definition mapNumberField :: "raw_field \<Rightarrow> field_value" where
  "mapNumberField field = NumberField (f_name field) (f_value field)"

definition mapTextField :: "raw_field \<Rightarrow> field_value" where
  "mapTextField field = TextField (f_name field) (f_value field)"

definition mapAssetsField :: "raw_field \<Rightarrow> field_value" where
  "mapAssetsField field = AssetsField (f_name field) (f_value field)"

definition mapTaxonomyField :: "raw_field \<Rightarrow> field_value" where
  "mapTaxonomyField field = TaxonomyField (f_name field) (f_value field) (f_taxonomy_group field)"

text \<open>
  \<^verbatim>\<open>mapField\<close>: the dispatch on the type string, in the order of the source. An
  unknown type warns under advanced logging and throws.
\<close>

definition mapField ::
  "(raw_item \<Rightarrow> mstate \<Rightarrow> addr result) \<Rightarrow> config \<Rightarrow> raw_field \<Rightarrow> modular_content \<Rightarrow> addr \<Rightarrow>
   item_query_config \<Rightarrow> mstate \<Rightarrow> field_value result" where
  "mapField rec cfg field mc item queryConfig st =
     (if f_type field = toString ft_modular_content then mapModularField rec cfg field mc st
      else if f_type field = toString ft_text then Some (Inr (mapTextField field), st)
      else if f_type field = toString ft_asset then Some (Inr (mapAssetsField field), st)
      else if f_type field = toString ft_number then Some (Inr (mapNumberField field), st)
      else if f_type field = toString ft_multiple_choice
        then Some (Inr (mapMultipleChoiceField field), st)
      else if f_type field = toString ft_datetime then Some (Inr (mapDateTimeField field), st)
      else if f_type field = toString ft_rich_text then mapRichTextField rec field mc st
      else if f_type field = toString ft_url_slug
        then Some (Inr (mapUrlSlugField field item queryConfig st), st)
      else if f_type field = toString ft_taxonomy then Some (Inr (mapTaxonomyField field), st)
      else Some (Inl (UnsupportedFieldType (f_type field)),
                 warn cfg (WarnUnsupportedFieldType (f_type field)) st))"

text \<open>
  The \<^verbatim>\<open>properties.forEach\<close> loop of \<^verbatim>\<open>mapFields\<close>: the property name is resolved
  first, then the field is mapped and assigned.
\<close>

fun mapProperties ::
  "(raw_item \<Rightarrow> mstate \<Rightarrow> addr result) \<Rightarrow> config \<Rightarrow> modular_content \<Rightarrow> item_query_config \<Rightarrow>
   addr \<Rightarrow> (string \<times> raw_field) list \<Rightarrow> mstate \<Rightarrow> unit result" where
  "mapProperties rec cfg mc queryConfig itemTyped [] st = Some (Inr (), st)"
| "mapProperties rec cfg mc queryConfig itemTyped ((fieldName, field) # rest) st =
     (case propertyName (heap st ! itemTyped) fieldName of
        Inl e \<Rightarrow> Some (Inl e, st)
      | Inr name \<Rightarrow>
          and_then (mapField rec cfg field mc itemTyped queryConfig st)
            (\<lambda>v st'.
               mapProperties rec cfg mc queryConfig itemTyped rest
                 (set_property itemTyped name v st')))"

text \<open>
  The body of \<^verbatim>\<open>mapFields\<close>, with \<open>rec\<close> for its nested calls: the five checks, the typed
  object, the registration in \<^verbatim>\<open>processedItems\<close> when the codename is not there yet, and
  the mapping of every element into the new object, which is returned.
\<close>

definition mapFields_body ::
  "(raw_item \<Rightarrow> mstate \<Rightarrow> addr result) \<Rightarrow> config \<Rightarrow> raw_item option \<Rightarrow> modular_content \<Rightarrow>
   item_query_config \<Rightarrow> processed_arg \<Rightarrow> mstate \<Rightarrow> addr result" where
  "mapFields_body rec cfg item mc queryConfig processedItems st =
     (case item of
        None \<Rightarrow> Some (Inl ItemNotDefined, st)
      | Some it \<Rightarrow>
     (case ri_system it of
        None \<Rightarrow> Some (Inl (MalformedResponse NoSystem), st)
      | Some sys \<Rightarrow>
     (case ri_elements it of
        None \<Rightarrow> Some (Inl (MalformedResponse (NoElements (sys_codename sys))), st)
      | Some elements \<Rightarrow>
     (case processedItems of
        Nullish \<Rightarrow> Some (Inl ProcessedItemsNotInitialized, st)
      | NotArray t \<Rightarrow>
          Some (Inl (if t then ProcessedItemsNotArray else ProcessedItemsNotInitialized), st)
      | SharedArray \<Rightarrow>
          (let (itemTyped, st1) =
                 alloc (if hasTypeResolver cfg (sys_type sys)
                        then createTypedObj cfg (sys_type sys) sys
                        else createContentItem sys) st
           in (case find_processed st1 (Some (sys_codename sys)) of
                 Inl e \<Rightarrow> Some (Inl e, st1)
               | Inr processedItem \<Rightarrow>
                   and_then
                     (mapProperties rec cfg mc queryConfig itemTyped elements
                        (case processedItem of
                           None \<Rightarrow> st1\<lparr>processed := processed st1 @ [itemTyped]\<rparr>
                         | Some m \<Rightarrow> st1))
                     (\<lambda>u st'. Some (Inr itemTyped, st'))))))))"

text \<open>
  \<^verbatim>\<open>mapFields\<close>. The first argument bounds the depth of the nested calls of
  \<^verbatim>\<open>mapFields\<close> below this one; a call that would go deeper has no result.
\<close>

primrec mapFields ::
  "nat \<Rightarrow> config \<Rightarrow> raw_item option \<Rightarrow> modular_content \<Rightarrow> item_query_config \<Rightarrow>
   processed_arg \<Rightarrow> mstate \<Rightarrow> addr result" where
  "mapFields 0 cfg item mc queryConfig processedItems st =
     mapFields_body (\<lambda>it s. None) cfg item mc queryConfig processedItems st"
| "mapFields (Suc n) cfg item mc queryConfig processedItems st =
     mapFields_body (\<lambda>it s. mapFields n cfg (Some it) mc queryConfig processedItems s)
       cfg item mc queryConfig processedItems st"

definition empty_state :: mstate where
  "empty_state = \<lparr>heap = [], processed = [], warnings = []\<rparr>"

section \<open>The nested calls of a mapping pass\<close>

text \<open>
  The calls of \<^verbatim>\<open>mapFields\<close> that a step of the mapper makes, in the order in which they
  are made, each with the item and the store it starts in. \<open>rec\<close> is the result of a
  nested call and \<open>calls\<close> are the calls made inside it. A step that does not return an
  item makes no further call.
\<close>

fun calls_modularItems ::
  "(raw_item \<Rightarrow> mstate \<Rightarrow> addr result) \<Rightarrow> (raw_item \<Rightarrow> mstate \<Rightarrow> (raw_item \<times> mstate) list) \<Rightarrow>
   config \<Rightarrow> raw_field \<Rightarrow> modular_content \<Rightarrow> string list \<Rightarrow> mstate \<Rightarrow> (raw_item \<times> mstate) list" where
  "calls_modularItems rec calls cfg field mc [] st = []"
| "calls_modularItems rec calls cfg field mc (modularItemCodename # rest) st =
     (case payload_lookup mc modularItemCodename of
        None \<Rightarrow>
          calls_modularItems rec calls cfg field mc rest
            (warn cfg (WarnModularItemMissing (f_name field)) st)
      | Some modularItem \<Rightarrow>
          (case find_processed st (map_option sys_codename (ri_system modularItem)) of
             Inl e \<Rightarrow> []
           | Inr (Some processedItem) \<Rightarrow> calls_modularItems rec calls cfg field mc rest st
           | Inr None \<Rightarrow>
               (modularItem, st) # calls modularItem st @
               (case rec modularItem st of
                  Some (Inr newModularItem, st') \<Rightarrow> calls_modularItems rec calls cfg field mc rest st'
                | _ \<Rightarrow> [])))"

fun calls_richTextItems ::
  "(raw_item \<Rightarrow> mstate \<Rightarrow> addr result) \<Rightarrow> (raw_item \<Rightarrow> mstate \<Rightarrow> (raw_item \<times> mstate) list) \<Rightarrow>
   modular_content \<Rightarrow> string list \<Rightarrow> mstate \<Rightarrow> (raw_item \<times> mstate) list" where
  "calls_richTextItems rec calls mc [] st = []"
| "calls_richTextItems rec calls mc (codename # rest) st =
     (case payload_lookup mc codename of
        None \<Rightarrow> []
      | Some modularContentItem \<Rightarrow>
          (modularContentItem, st) # calls modularContentItem st @
          (case rec modularContentItem st of
             Some (Inr modularItem, st') \<Rightarrow> calls_richTextItems rec calls mc rest st'
           | _ \<Rightarrow> []))"

definition calls_field ::
  "(raw_item \<Rightarrow> mstate \<Rightarrow> addr result) \<Rightarrow> (raw_item \<Rightarrow> mstate \<Rightarrow> (raw_item \<times> mstate) list) \<Rightarrow>
   config \<Rightarrow> raw_field \<Rightarrow> modular_content \<Rightarrow> mstate \<Rightarrow> (raw_item \<times> mstate) list" where
  "calls_field rec calls cfg field mc st =
     (if f_type field = toString ft_modular_content
      then (case f_value field of
              VArray fieldModularContent \<Rightarrow>
                calls_modularItems rec calls cfg field mc fieldModularContent st
            | _ \<Rightarrow> [])
      else if f_type field = toString ft_rich_text
      then calls_richTextItems rec calls mc
             (case f_modular_content field of None \<Rightarrow> [] | Some cs \<Rightarrow> cs) st
      else [])"

fun calls_properties ::
  "(raw_item \<Rightarrow> mstate \<Rightarrow> addr result) \<Rightarrow> (raw_item \<Rightarrow> mstate \<Rightarrow> (raw_item \<times> mstate) list) \<Rightarrow>
   config \<Rightarrow> modular_content \<Rightarrow> item_query_config \<Rightarrow> addr \<Rightarrow> (string \<times> raw_field) list \<Rightarrow>
   mstate \<Rightarrow> (raw_item \<times> mstate) list" where
  "calls_properties rec calls cfg mc queryConfig itemTyped [] st = []"
| "calls_properties rec calls cfg mc queryConfig itemTyped ((fieldName, field) # rest) st =
     (case propertyName (heap st ! itemTyped) fieldName of
        Inl e \<Rightarrow> []
      | Inr name \<Rightarrow>
          calls_field rec calls cfg field mc st @
          (case mapField rec cfg field mc itemTyped queryConfig st of
             Some (Inr v, st') \<Rightarrow>
               calls_properties rec calls cfg mc queryConfig itemTyped rest
                 (set_property itemTyped name v st')
           | _ \<Rightarrow> []))"

definition calls_body ::
  "(raw_item \<Rightarrow> mstate \<Rightarrow> addr result) \<Rightarrow> (raw_item \<Rightarrow> mstate \<Rightarrow> (raw_item \<times> mstate) list) \<Rightarrow>
   config \<Rightarrow> raw_item option \<Rightarrow> modular_content \<Rightarrow> item_query_config \<Rightarrow> processed_arg \<Rightarrow>
   mstate \<Rightarrow> (raw_item \<times> mstate) list" where
  "calls_body rec calls cfg item mc queryConfig processedItems st =
     (case item of
        None \<Rightarrow> []
      | Some it \<Rightarrow>
     (case ri_system it of
        None \<Rightarrow> []
      | Some sys \<Rightarrow>
     (case ri_elements it of
        None \<Rightarrow> []
      | Some elements \<Rightarrow>
     (case processedItems of
        Nullish \<Rightarrow> []
      | NotArray t \<Rightarrow> []
      | SharedArray \<Rightarrow>
          (let (itemTyped, st1) =
                 alloc (if hasTypeResolver cfg (sys_type sys)
                        then createTypedObj cfg (sys_type sys) sys
                        else createContentItem sys) st
           in (case find_processed st1 (Some (sys_codename sys)) of
                 Inl e \<Rightarrow> []
               | Inr processedItem \<Rightarrow>
                   calls_properties rec calls cfg mc queryConfig itemTyped elements
                     (case processedItem of
                        None \<Rightarrow> st1\<lparr>processed := processed st1 @ [itemTyped]\<rparr>
                      | Some m \<Rightarrow> st1)))))))"

text \<open>
  The nested calls of \<^verbatim>\<open>mapFields\<close> that a call of \<^verbatim>\<open>mapFields\<close> makes, directly or
  inside a nested call, down to the depth allowed.
\<close>

primrec nested_calls ::
  "nat \<Rightarrow> config \<Rightarrow> raw_item option \<Rightarrow> modular_content \<Rightarrow> item_query_config \<Rightarrow>
   processed_arg \<Rightarrow> mstate \<Rightarrow> (raw_item \<times> mstate) list" where
  "nested_calls 0 cfg item mc queryConfig processedItems st = []"
| "nested_calls (Suc n) cfg item mc queryConfig processedItems st =
     calls_body (\<lambda>it s. mapFields n cfg (Some it) mc queryConfig processedItems s)
       (\<lambda>it s. nested_calls n cfg (Some it) mc queryConfig processedItems s)
       cfg item mc queryConfig processedItems st"

section \<open>RichTextResolver\<close>

record image =
  imageId :: string
  image_url :: string

text \<open>
  The value of a property of a content item: an \<^verbatim>\<open>Elements.RichTextElement\<close> with its
  images and the codenames of its linked items, or any other value, truthy or not.
\<close>

datatype element = RichTextElement "image list" "string list" | OtherValue bool

text \<open>
  \<^verbatim>\<open>_config.richTextResolver\<close> of an item is only ever applied to the item that declares
  it, so it is the function of the remaining argument, the content type of the embed.
\<close>

record item_config =
  ic_richTextResolver :: "(string \<Rightarrow> string) option"

text \<open>
  A content item of the graph: its system attributes, \<^verbatim>\<open>_config\<close> when it has one, and
  its other properties in the order of \<^verbatim>\<open>Object.keys\<close>. Every item also holds the raw
  item it was built from (\<^verbatim>\<open>_raw\<close>), which the resolver does not read.
\<close>

record content_item =
  ci_codename :: string
  ci_type :: string
  ci_config :: "item_config option"
  ci_props :: "(string \<times> element) list"

text \<open>
  \<^verbatim>\<open>Object.keys(contentItem)\<close>, without \<open>system\<close>, \<^verbatim>\<open>_raw\<close> and \<^verbatim>\<open>_config\<close> (no
  rich text elements): an entry of \<open>ci_props\<close> under one of these names is no property.
\<close>

definition own_properties :: "content_item \<Rightarrow> (string \<times> element) list" where
  "own_properties contentItem =
     filter (\<lambda>(propName, e). propName \<notin> {''system'', ''_raw'', ''_config''}) (ci_props contentItem)"

text \<open>
  \<^verbatim>\<open>linkedItem[elementName]\<close>: the system attributes, the raw item and the configuration
  are objects (truthy, no rich text element); else the property of that name; else the
  member of that name inherited from \<^verbatim>\<open>Object.prototype\<close>; else \<open>undefined\<close> (\<open>None\<close>).
\<close>

definition item_property :: "content_item \<Rightarrow> string \<Rightarrow> element option" where
  "item_property linkedItem elementName =
     (if elementName = ''system'' \<or> elementName = ''_raw'' then Some (OtherValue True)
      else if elementName = ''_config''
      then (case ci_config linkedItem of None \<Rightarrow> None | Some c \<Rightarrow> Some (OtherValue True))
      else
        (case map_of (ci_props linkedItem) elementName of
           Some e \<Rightarrow> Some e
         | None \<Rightarrow> (if elementName \<in> set object_members then Some (OtherValue True) else None)))"

record url_slug_result =
  res_html :: string
  res_url :: string

record image_result =
  ir_url :: string

record link_context =
  lc_linkText :: string
  lc_item :: "content_item option"
  lc_linkId :: string

text \<open>The query configuration; a property that is not set is \<open>None\<close>.\<close>

record query_config =
  throwErrorForMissingLinkedItems :: "bool option"
  richTextResolver :: "(content_item \<Rightarrow> string \<Rightarrow> string) option"
  urlSlugResolver :: "(link \<Rightarrow> link_context \<Rightarrow> url_slug_result option) option"
  richTextImageResolver :: "(image \<Rightarrow> string \<Rightarrow> image_result) option"

record resolver_config =
  rc_enableAdvancedLogging :: bool
  rc_queryConfig :: query_config

text \<open>The query configuration when the caller sets nothing: the empty object.\<close>

definition default_queryConfig :: query_config where
  "default_queryConfig =
     \<lparr>throwErrorForMissingLinkedItems = None, richTextResolver = None,
      urlSlugResolver = None, richTextImageResolver = None\<rparr>"

definition flag :: "bool option \<Rightarrow> bool" where
  "flag b = (b = Some True)"

definition console_warn :: "resolver_config \<Rightarrow> warning \<Rightarrow> warning list" where
  "console_warn config w = (if rc_enableAdvancedLogging config then [w] else [])"

definition getLinkedItemHtml ::
  "resolver_config \<Rightarrow> (string \<Rightarrow> content_item option) \<Rightarrow> string \<Rightarrow> string \<Rightarrow>
   (error + string) \<times> warning list" where
  "getLinkedItemHtml config getLinkedItem itemCodename itemType =
     (case getLinkedItem itemCodename of
        None \<Rightarrow>
          (if flag (throwErrorForMissingLinkedItems (rc_queryConfig config))
           then (Inl (LinkedItemNotFound itemCodename), [])
           else (Inr [], console_warn config (WarnLinkedItemMissing itemCodename)))
      | Some linkedItem \<Rightarrow>
          (let resolver =
                 (case richTextResolver (rc_queryConfig config) of
                    Some r \<Rightarrow> Some (r linkedItem)
                  | None \<Rightarrow>
                      (case ci_config linkedItem of
                         None \<Rightarrow> None
                       | Some c \<Rightarrow> ic_richTextResolver c))
           in (case resolver of
                 None \<Rightarrow>
                   (Inr [], console_warn config (WarnNoRichTextResolver (ci_type linkedItem) itemCodename))
               | Some r \<Rightarrow> (Inr (r itemType), []))))"

definition getUrlSlugResult ::
  "resolver_config \<Rightarrow> link list \<Rightarrow> string \<Rightarrow> (string \<Rightarrow> content_item option) \<Rightarrow> string \<Rightarrow>
   (string \<Rightarrow> (link \<Rightarrow> link_context \<Rightarrow> url_slug_result option) option) \<Rightarrow>
   (error + url_slug_result) \<times> warning list" where
  "getUrlSlugResult config links itemId getLinkedItem linkText getGlobalUrlSlugResolver =
     (case find (\<lambda>m. linkId m = itemId) links of
        None \<Rightarrow> (Inr \<lparr>res_html = [], res_url = []\<rparr>, console_warn config (WarnLinkNotFound itemId))
      | Some existingLink \<Rightarrow>
          (let linkContext = \<lparr>lc_linkText = linkText,
                              lc_item = getLinkedItem (link_codename existingLink),
                              lc_linkId = itemId\<rparr>;
               queryUrlSlugResult =
                 (case urlSlugResolver (rc_queryConfig config) of
                    None \<Rightarrow> None
                  | Some queryUrlSlugResolver \<Rightarrow> queryUrlSlugResolver existingLink linkContext)
           in (case queryUrlSlugResult of
                 Some r \<Rightarrow> (Inr r, [])
               | None \<Rightarrow>
                   (case (case getGlobalUrlSlugResolver (link_type existingLink) of
                            None \<Rightarrow> None
                          | Some globalUrlSlugResolver \<Rightarrow> globalUrlSlugResolver existingLink linkContext) of
                      Some r \<Rightarrow> (Inr r, [])
                    | None \<Rightarrow>
                        (Inr \<lparr>res_html = [], res_url = []\<rparr>,
                         console_warn config
                           (WarnUrlNotResolved (link_type existingLink) (linkId existingLink)))))))"

text \<open>
  \<^verbatim>\<open>tryGetImageFromLinkedItem\<close>: the inner loop over the linked item codenames of one
  rich text element, the outer loop over the properties of the item, and the recursion,
  which keeps no record of the items it has visited. \<open>None\<close> is no result (the depth
  budget is exhausted), \<open>Some None\<close> is \<open>undefined\<close>.
\<close>

fun searchLinkedItems ::
  "(content_item \<Rightarrow> image option option) \<Rightarrow> (string \<Rightarrow> content_item option) \<Rightarrow> string list \<Rightarrow>
   image option option" where
  "searchLinkedItems rec getLinkedItem [] = Some None"
| "searchLinkedItems rec getLinkedItem (linkedItemCodename # rest) =
     (case getLinkedItem linkedItemCodename of
        None \<Rightarrow> searchLinkedItems rec getLinkedItem rest
      | Some linkedItem \<Rightarrow>
          (case rec linkedItem of
             None \<Rightarrow> None
           | Some (Some linkedImage) \<Rightarrow> Some (Some linkedImage)
           | Some None \<Rightarrow> searchLinkedItems rec getLinkedItem rest))"

fun searchProperties ::
  "(content_item \<Rightarrow> image option option) \<Rightarrow> (string \<Rightarrow> content_item option) \<Rightarrow> string \<Rightarrow>
   (string \<times> element) list \<Rightarrow> image option option" where
  "searchProperties rec getLinkedItem imgId [] = Some None"
| "searchProperties rec getLinkedItem imgId ((propName, OtherValue t) # rest) =
     searchProperties rec getLinkedItem imgId rest"
| "searchProperties rec getLinkedItem imgId ((propName, RichTextElement images linkedItemCodenames) # rest) =
     (case find (\<lambda>m. imageId m = imgId) images of
        Some img \<Rightarrow> Some (Some img)
      | None \<Rightarrow>
          (case searchLinkedItems rec getLinkedItem linkedItemCodenames of
             None \<Rightarrow> None
           | Some (Some linkedImage) \<Rightarrow> Some (Some linkedImage)
           | Some None \<Rightarrow> searchProperties rec getLinkedItem imgId rest))"

primrec tryGetImageFromLinkedItem ::
  "nat \<Rightarrow> string \<Rightarrow> content_item \<Rightarrow> (string \<Rightarrow> content_item option) \<Rightarrow> image option option" where
  "tryGetImageFromLinkedItem 0 imgId contentItem getLinkedItem =
     searchProperties (\<lambda>linkedItem. None) getLinkedItem imgId (own_properties contentItem)"
| "tryGetImageFromLinkedItem (Suc n) imgId contentItem getLinkedItem =
     searchProperties (\<lambda>linkedItem. tryGetImageFromLinkedItem n imgId linkedItem getLinkedItem)
       getLinkedItem imgId (own_properties contentItem)"

text \<open>
  \<^verbatim>\<open>getImageResult\<close>; the first argument is the depth budget of the nested search. A
  truthy value under the element name that is no rich text element is an error; without a
  truthy value there, and without the image in the rich text element there, the search
  through the item follows.
\<close>

definition getImageResult ::
  "nat \<Rightarrow> resolver_config \<Rightarrow> (string \<Rightarrow> content_item option) \<Rightarrow> string \<Rightarrow> string \<Rightarrow> string \<Rightarrow>
   ((error + image_result) \<times> warning list) option" where
  "getImageResult n config getLinkedItem itemCodename imgId elementName =
     (case getLinkedItem itemCodename of
        None \<Rightarrow>
          (if flag (throwErrorForMissingLinkedItems (rc_queryConfig config))
           then Some (Inl (ImageItemNotFound itemCodename imgId), [])
           else Some (Inr \<lparr>ir_url = []\<rparr>, console_warn config (WarnImageItemMissing imgId itemCodename)))
      | Some linkedItem \<Rightarrow>
          (case item_property linkedItem elementName of
             Some (OtherValue True) \<Rightarrow> Some (Inl (InvalidElement itemCodename elementName), [])
           | richTextElement \<Rightarrow>
               (case (case (case richTextElement of
                              Some (RichTextElement images cs) \<Rightarrow> find (\<lambda>m. imageId m = imgId) images
                            | _ \<Rightarrow> None) of
                        Some img \<Rightarrow> Some (Some img)
                      | None \<Rightarrow> tryGetImageFromLinkedItem n imgId linkedItem getLinkedItem) of
                  None \<Rightarrow> None
                | Some None \<Rightarrow> Some (Inl (ImageNotFound imgId itemCodename elementName), [])
                | Some (Some img) \<Rightarrow>
                    (case richTextImageResolver (rc_queryConfig config) of
                       Some r \<Rightarrow> Some (Inr (r img elementName), [])
                     | None \<Rightarrow> Some (Inr \<lparr>ir_url = image_url img\<rparr>, [])))))"

section \<open>Properties of a payload and of the store\<close>

definition well_formed :: "raw_item \<Rightarrow> bool" where
  "well_formed it = (ri_system it \<noteq> None \<and> ri_elements it \<noteq> None)"

text \<open>The error that \<^verbatim>\<open>mapFields\<close> throws for an item without system attributes or elements.\<close>

definition malformed_error :: "raw_item \<Rightarrow> error" where
  "malformed_error it =
     (case ri_system it of
        None \<Rightarrow> MalformedResponse NoSystem
      | Some sys \<Rightarrow> MalformedResponse (NoElements (sys_codename sys)))"

text \<open>A computation that does not end in a \<open>MalformedResponse\<close>.\<close>

definition no_malformed :: "'a result \<Rightarrow> bool" where
  "no_malformed r = (case r of Some (Inl (MalformedResponse m), st) \<Rightarrow> False | _ \<Rightarrow> True)"

text \<open>A computation that does not return a value: it has no result, or it throws.\<close>

definition no_value :: "'a result \<Rightarrow> bool" where
  "no_value r = (case r of Some (Inr v, st) \<Rightarrow> False | _ \<Rightarrow> True)"

text \<open>The elements of an item (none when the map is missing).\<close>

definition elements_of :: "raw_item \<Rightarrow> (string \<times> raw_field) list" where
  "elements_of it = (case ri_elements it of None \<Rightarrow> [] | Some els \<Rightarrow> els)"

text \<open>
  The codenames that the mapper looks up in the sibling payload for a field: the value of
  a linked-items field, and \<^verbatim>\<open>modular_content\<close> of a rich text.
\<close>

definition references :: "raw_field \<Rightarrow> string list" where
  "references field =
     (if f_type field = toString ft_modular_content
      then (case f_value field of VArray cs \<Rightarrow> cs | _ \<Rightarrow> [])
      else if f_type field = toString ft_rich_text
      then (case f_modular_content field of None \<Rightarrow> [] | Some cs \<Rightarrow> cs)
      else [])"

text \<open>
  A set of items that have system attributes and elements, with whatever the sibling
  payload gives for the codenames that they reference: the items that a mapping pass can
  reach from an item of the set are in the set. A referenced codename that is no key of the
  payload and names an inherited member rules this out.
\<close>

definition closed_well_formed :: "modular_content \<Rightarrow> raw_item set \<Rightarrow> bool" where
  "closed_well_formed mc S =
     (\<forall>i \<in> S. well_formed i \<and>
        (\<forall>(k, field) \<in> set (elements_of i). \<forall>c \<in> set (references field).
           \<forall>j. payload_lookup mc c = Some j \<longrightarrow> j \<in> S))"

text \<open>
  A store in which the processed items exist and every typed item is a generic
  \<^verbatim>\<open>ContentItem\<close> whose members \<open>system\<close> and \<open>propertyResolver\<close> are as created: no
  element has been mapped to a property of these names.
\<close>

definition intact :: "mstate \<Rightarrow> bool" where
  "intact st =
     ((\<forall>a \<in> set (processed st). a < length (heap st)) \<and>
      (\<forall>t \<in> set (heap st). ti_class t = None \<and> map_of (ti_props t) ''system'' = None \<and>
         map_of (ti_props t) ''propertyResolver'' = None))"

text \<open>
  A set of content items in which an image is nowhere to be found: no rich text element of
  an item of the set holds the image, and the items that it links to are in the set and
  have a smaller rank (so the search through the linked items comes to an end).
\<close>

definition image_absent ::
  "string \<Rightarrow> (string \<Rightarrow> content_item option) \<Rightarrow> (content_item \<Rightarrow> nat) \<Rightarrow> content_item set \<Rightarrow> bool" where
  "image_absent imgId getLinkedItem rank S =
     (\<forall>j \<in> S. \<forall>(p, e) \<in> set (own_properties j). \<forall>images cs. e = RichTextElement images cs \<longrightarrow>
        find (\<lambda>m. imageId m = imgId) images = None \<and>
        (\<forall>c \<in> set cs. \<forall>j'. getLinkedItem c = Some j' \<longrightarrow> j' \<in> S \<and> rank j' < rank j))"

section \<open>Example payloads\<close>

definition cfg_quiet :: config where
  "cfg_quiet = \<lparr>enableAdvancedLogging = False, typeResolvers = []\<rparr>"

definition cfg_logging :: config where
  "cfg_logging = \<lparr>enableAdvancedLogging = True, typeResolvers = []\<rparr>"

definition qc_none :: item_query_config where
  "qc_none = \<lparr>qc_linkResolver = None\<rparr>"

definition sys_of :: "string \<Rightarrow> system_attributes" where
  "sys_of c = \<lparr>sys_id = c, sys_codename = c, sys_type = ''article'', sys_language = ''en''\<rparr>"

definition linked_field :: "string list \<Rightarrow> raw_field" where
  "linked_field cs =
     \<lparr>f_name = ''Related'', f_type = ''modular_content'', f_value = VArray cs,
      f_taxonomy_group = None, f_modular_content = None, f_links = None\<rparr>"

definition text_field :: "string \<Rightarrow> raw_field" where
  "text_field v =
     \<lparr>f_name = ''Title'', f_type = ''text'', f_value = VStr v,
      f_taxonomy_group = None, f_modular_content = None, f_links = None\<rparr>"

definition rich_field :: "string list \<Rightarrow> raw_field" where
  "rich_field cs =
     \<lparr>f_name = ''Body'', f_type = ''rich_text'', f_value = VStr ''<p></p>'',
      f_taxonomy_group = None, f_modular_content = Some cs, f_links = Some []\<rparr>"

definition custom_field :: raw_field where
  "custom_field =
     \<lparr>f_name = ''Rating'', f_type = ''custom'', f_value = VNum 5,
      f_taxonomy_group = None, f_modular_content = None, f_links = None\<rparr>"

text \<open>Two items whose linked-items fields reference each other.\<close>

definition item_a :: raw_item where
  "item_a = \<lparr>ri_system = Some (sys_of ''a''), ri_elements = Some [(''related'', linked_field [''b''])]\<rparr>"

definition item_b :: raw_item where
  "item_b = \<lparr>ri_system = Some (sys_of ''b''), ri_elements = Some [(''related'', linked_field [''a''])]\<rparr>"

definition payload_ab :: modular_content where
  "payload_ab = [(''a'', item_a), (''b'', item_b)]"

text \<open>An item with one text element, and a store in which an item of its codename is processed.\<close>

definition item_w :: raw_item where
  "item_w = \<lparr>ri_system = Some (sys_of ''w''), ri_elements = Some [(''title'', text_field ''Warrior'')]\<rparr>"

definition store_w :: mstate where
  "store_w = \<lparr>heap = [createContentItem (sys_of ''w'')], processed = [0], warnings = []\<rparr>"

text \<open>An item without elements.\<close>

definition item_m :: raw_item where
  "item_m = \<lparr>ri_system = Some (sys_of ''m''), ri_elements = None\<rparr>"

text \<open>Content items and configurations of the rich text resolver.\<close>

definition actor_x :: content_item where
  "actor_x = \<lparr>ci_codename = ''actor_x'', ci_type = ''actor'',
              ci_config = Some \<lparr>ic_richTextResolver = Some (\<lambda>t. ''<own/>'')\<rparr>,
              ci_props = [(''bio'', RichTextElement [\<lparr>imageId = ''i1'', image_url = ''u1''\<rparr>] [])]\<rparr>"

definition actor_y :: content_item where
  "actor_y = \<lparr>ci_codename = ''actor_y'', ci_type = ''actor'', ci_config = None,
              ci_props = [(''bio'', RichTextElement [] [])]\<rparr>"

definition graph_xy :: "string \<Rightarrow> content_item option" where
  "graph_xy = map_of [(''actor_x'', actor_x), (''actor_y'', actor_y)]"

definition lenient :: resolver_config where
  "lenient = \<lparr>rc_enableAdvancedLogging = False, rc_queryConfig = default_queryConfig\<rparr>"

definition lenient_logging :: resolver_config where
  "lenient_logging = \<lparr>rc_enableAdvancedLogging = True, rc_queryConfig = default_queryConfig\<rparr>"

definition strict :: resolver_config where
  "strict = \<lparr>rc_enableAdvancedLogging = False,
             rc_queryConfig = default_queryConfig\<lparr>throwErrorForMissingLinkedItems := Some True\<rparr>\<rparr>"

definition per_query :: resolver_config where
  "per_query = \<lparr>rc_enableAdvancedLogging = False,
                rc_queryConfig = default_queryConfig\<lparr>richTextResolver := Some (\<lambda>i t. ''<query/>'')\<rparr>\<rparr>"

text \<open>An item whose rich text lists a codename that the payload does not contain.\<close>

definition item_r :: raw_item where
  "item_r = \<lparr>ri_system = Some (sys_of ''r''), ri_elements = Some [(''body'', rich_field [''x''])]\<rparr>"

text \<open>
  An item whose rich text links to \<open>actor_y\<close>, and an item with a property that is not
  truthy before its rich text.
\<close>

definition actor_v :: content_item where
  "actor_v = \<lparr>ci_codename = ''actor_v'', ci_type = ''actor'', ci_config = None,
              ci_props = [(''bio'', RichTextElement [] [''actor_y''])]\<rparr>"

definition actor_u :: content_item where
  "actor_u = \<lparr>ci_codename = ''actor_u'', ci_type = ''actor'', ci_config = None,
              ci_props = [(''age'', OtherValue False), (''bio'', RichTextElement [] [''actor_y''])]\<rparr>"

text \<open>An item whose rich text links to the item itself.\<close>

definition actor_k :: content_item where
  "actor_k = \<lparr>ci_codename = ''actor_k'', ci_type = ''actor'', ci_config = None,
              ci_props = [(''bio'', RichTextElement [] [''actor_k''])]\<rparr>"

definition graph_k :: "string \<Rightarrow> content_item option" where
  "graph_k = map_of [(''actor_k'', actor_k)]"

definition graph_vy :: "string \<Rightarrow> content_item option" where
  "graph_vy = map_of [(''actor_v'', actor_v), (''actor_u'', actor_u), (''actor_y'', actor_y)]"

text \<open>A linked-items field and a rich text that reference the same codename.\<close>

definition both_fields :: "string \<Rightarrow> (string \<times> raw_field) list" where
  "both_fields c = [(''related'', linked_field [c]), (''body'', rich_field [c])]"

text \<open>An item that references \<open>item_w\<close> from its linked-items field and embeds it in its rich text.\<close>

definition item_d :: raw_item where
  "item_d = \<lparr>ri_system = Some (sys_of ''d''), ri_elements = Some (both_fields ''w'')\<rparr>"

definition payload_w :: modular_content where
  "payload_w = [(''w'', item_w)]"

text \<open>
  An item whose linked-items field references the item without elements, and an item whose
  rich text embeds it.
\<close>

definition item_n :: raw_item where
  "item_n = \<lparr>ri_system = Some (sys_of ''n''), ri_elements = Some [(''related'', linked_field [''m''])]\<rparr>"

definition item_e :: raw_item where
  "item_e = \<lparr>ri_system = Some (sys_of ''e''), ri_elements = Some [(''body'', rich_field [''m''])]\<rparr>"

definition payload_m :: modular_content where
  "payload_m = [(''m'', item_m)]"

text \<open>An item whose linked-items field references the item that embeds the item without elements.\<close>

definition item_g :: raw_item where
  "item_g = \<lparr>ri_system = Some (sys_of ''g''), ri_elements = Some [(''related'', linked_field [''e''])]\<rparr>"

definition payload_em :: modular_content where
  "payload_em = [(''e'', item_e), (''m'', item_m)]"

text \<open>
  An item that references, from its linked-items field and from its rich text, a codename
  that is no key of the payload and names an inherited member.
\<close>

definition item_c :: "(string list \<Rightarrow> raw_field) \<Rightarrow> raw_item" where
  "item_c field = \<lparr>ri_system = Some (sys_of ''c''), ri_elements = Some [(''refs'', field [''constructor''])]\<rparr>"

text \<open>An item with an element of the name \<open>system\<close>.\<close>

definition item_t :: raw_item where
  "item_t = \<lparr>ri_system = Some (sys_of ''t''), ri_elements = Some [(''system'', text_field ''T'')]\<rparr>"

text \<open>
  Two items that reference each other from their linked-items fields and embed each other in
  their rich texts.
\<close>

definition item_p :: raw_item where
  "item_p = \<lparr>ri_system = Some (sys_of ''p''), ri_elements = Some (both_fields ''q'')\<rparr>"

definition item_q :: raw_item where
  "item_q = \<lparr>ri_system = Some (sys_of ''q''), ri_elements = Some (both_fields ''p'')\<rparr>"

definition payload_pq :: modular_content where
  "payload_pq = [(''p'', item_p), (''q'', item_q)]"

section \<open>Sequencing\<close>

declare mapDateTimeField_def [simp] mapMultipleChoiceField_def [simp] mapNumberField_def [simp]
  mapTextField_def [simp] mapAssetsField_def [simp] mapTaxonomyField_def [simp]

lemma and_then_simps [simp]:
  "and_then None k = None"
  "and_then (Some (Inl e, st)) k = Some (Inl e, st)"
  "and_then (Some (Inr v, st)) k = k v st"
  by (simp_all add: and_then_def)

lemma and_then_cong:
  "r = r' \<Longrightarrow> (\<And>v s. k v s = k' v s) \<Longrightarrow> and_then r k = and_then r' k'"
  by (auto simp: and_then_def split: option.splits sum.splits prod.splits)

lemma and_then_assoc_items:
  "and_then (and_then r k) k' = and_then r (\<lambda>v s. and_then (k v s) k')"
  by (auto simp: and_then_def split: option.splits sum.splits prod.splits)

lemma mapFields_unfold:
  "mapFields n cfg item mc qc p st =
     mapFields_body (case n of 0 \<Rightarrow> (\<lambda>it s. None) | Suc m \<Rightarrow> (\<lambda>it s. mapFields m cfg (Some it) mc qc p s))
       cfg item mc qc p st"
  by (cases n) simp_all

section \<open>Malformed items\<close>

lemma no_malformed_None [simp]: "no_malformed None"
  by (simp add: no_malformed_def)

lemma no_malformed_Inr [simp]: "no_malformed (Some (Inr v, s))"
  by (simp add: no_malformed_def)

lemma no_malformed_Inl [simp]: "no_malformed (Some (Inl e, s)) = (\<forall>m. e \<noteq> MalformedResponse m)"
  by (cases e) (simp_all add: no_malformed_def)

lemma no_malformed_and_then:
  assumes "no_malformed r" and "\<And>v s. no_malformed (k v s)"
  shows "no_malformed (and_then r k)"
proof (cases r)
  case None
  then show ?thesis by (simp add: and_then_def)
next
  case (Some p)
  obtain res s where p: "p = (res, s)" by (cases p)
  show ?thesis using assms Some p by (cases res) (simp_all add: and_then_def)
qed

lemma find_item_error: "find_item h c ms = Inl e \<Longrightarrow> e = TypeError"
  by (induction ms) (auto simp: system_codename_def split: sum.splits option.splits if_splits field_value.splits)

lemma find_processed_error: "find_processed st c = Inl e \<Longrightarrow> e = TypeError"
  unfolding find_processed_def by (rule find_item_error)

lemma propertyName_error: "propertyName t f = Inl e \<Longrightarrow> e = TypeError"
  by (auto simp: propertyName_def Let_def split: option.splits field_value.splits sum.splits)

lemma nm_mapModularItems:
  assumes rec: "\<And>i s. P i \<Longrightarrow> no_malformed (rec i s)"
    and mc: "\<And>c i. c \<in> set cs \<Longrightarrow> payload_lookup mc c = Some i \<Longrightarrow> P i"
  shows "no_malformed (mapModularItems rec cfg field mc cs acc st)"
  using mc
proof (induction cs arbitrary: acc st)
  case Nil
  show ?case by simp
next
  case (Cons c cs)
  have IH: "no_malformed (mapModularItems rec cfg field mc cs acc' st')" for acc' st'
    by (rule Cons.IH) (auto intro: Cons.prems)
  show ?case
  proof (cases "payload_lookup mc c")
    case None
    then show ?thesis using IH by simp
  next
    case (Some i)
    then have wf: "P i" using Cons.prems [of c i] by simp
    have call: "no_malformed (and_then (rec i st) (\<lambda>v s. mapModularItems rec cfg field mc cs (acc @ [v]) s))"
      by (rule no_malformed_and_then) (auto intro: rec wf IH)
    show ?thesis
    proof (cases "find_processed st (map_option sys_codename (ri_system i))")
      case (Inl e)
      then show ?thesis using Some find_processed_error [OF Inl] by simp
    next
      case (Inr r)
      then show ?thesis using Some call IH by (cases r) simp_all
    qed
  qed
qed

lemma nm_mapRichTextItems:
  assumes rec: "\<And>i s. P i \<Longrightarrow> no_malformed (rec i s)"
    and mc: "\<And>c i. c \<in> set cs \<Longrightarrow> payload_lookup mc c = Some i \<Longrightarrow> P i"
  shows "no_malformed (mapRichTextItems rec field mc cs acc st)"
  using mc
proof (induction cs arbitrary: acc st)
  case Nil
  show ?case by simp
next
  case (Cons c cs)
  have IH: "no_malformed (mapRichTextItems rec field mc cs acc' st')" for acc' st'
    by (rule Cons.IH) (auto intro: Cons.prems)
  show ?case
  proof (cases "payload_lookup mc c")
    case None
    then show ?thesis by simp
  next
    case (Some i)
    then have wf: "P i" using Cons.prems [of c i] by simp
    have "no_malformed (and_then (rec i st) (\<lambda>v s. mapRichTextItems rec field mc cs (acc @ [v]) s))"
      by (rule no_malformed_and_then) (auto intro: rec wf IH)
    then show ?thesis using Some by simp
  qed
qed

lemma nm_mapField:
  assumes rec: "\<And>i s. P i \<Longrightarrow> no_malformed (rec i s)"
    and mc: "\<And>c i. c \<in> set (references field) \<Longrightarrow> payload_lookup mc c = Some i \<Longrightarrow> P i"
  shows "no_malformed (mapField rec cfg field mc a qc st)"
proof -
  have 1: "no_malformed (mapModularField rec cfg field mc st)"
    if t: "f_type field = toString ft_modular_content"
  proof (cases "f_value field")
    case (VArray cs)
    have r: "references field = cs" using t VArray by (simp add: references_def)
    have "no_malformed (mapModularItems rec cfg field mc cs [] st)"
    proof (rule nm_mapModularItems [where P = P])
      fix c i assume "c \<in> set cs" "payload_lookup mc c = Some i"
      then show "P i" using mc [of c i] r by simp
    qed (rule rec)
    then show ?thesis unfolding mapModularField_def VArray
      by (auto intro!: no_malformed_and_then)
  qed (simp_all add: mapModularField_def)
  have 2: "no_malformed (mapRichTextField rec field mc st)"
    if t: "f_type field = toString ft_rich_text"
  proof -
    define cs where "cs = (case f_modular_content field of None \<Rightarrow> [] | Some cs \<Rightarrow> cs)"
    have r: "references field = cs" using t by (simp add: references_def cs_def)
    have "no_malformed (mapRichTextItems rec field mc cs [] st)"
    proof (rule nm_mapRichTextItems [where P = P])
      fix c i assume "c \<in> set cs" "payload_lookup mc c = Some i"
      then show "P i" using mc [of c i] r by simp
    qed (rule rec)
    then show ?thesis unfolding mapRichTextField_def cs_def
      by (rule no_malformed_and_then) (auto split: option.splits)
  qed
  show ?thesis using 1 2 by (simp add: mapField_def)
qed

lemma nm_mapProperties:
  assumes rec: "\<And>i s. P i \<Longrightarrow> no_malformed (rec i s)"
    and mc: "\<And>k field c i. (k, field) \<in> set fs \<Longrightarrow> c \<in> set (references field) \<Longrightarrow>
               payload_lookup mc c = Some i \<Longrightarrow> P i"
  shows "no_malformed (mapProperties rec cfg mc qc a fs st)"
  using mc
proof (induction fs arbitrary: st)
  case Nil
  show ?case by simp
next
  case (Cons f fs)
  obtain k fld where f: "f = (k, fld)" by (cases f)
  have IH: "no_malformed (mapProperties rec cfg mc qc a fs st')" for st'
    by (rule Cons.IH) (auto intro: Cons.prems)
  have fld: "no_malformed (mapField rec cfg fld mc a qc st)"
    by (rule nm_mapField [where P = P]) (auto intro: rec Cons.prems simp: f)
  show ?case
  proof (cases "propertyName (heap st ! a) k")
    case (Inl e)
    then show ?thesis using propertyName_error [OF Inl] by (simp add: f)
  next
    case (Inr name)
    have "no_malformed (and_then (mapField rec cfg fld mc a qc st)
            (\<lambda>v st'. mapProperties rec cfg mc qc a fs (set_property a name v st')))"
      using fld by (rule no_malformed_and_then) (rule IH)
    then show ?thesis using Inr by (simp add: f)
  qed
qed

lemma nm_body:
  assumes rec: "\<And>i s. P i \<Longrightarrow> no_malformed (rec i s)"
    and mc: "\<And>k field c i. (k, field) \<in> set (elements_of it) \<Longrightarrow> c \<in> set (references field) \<Longrightarrow>
               payload_lookup mc c = Some i \<Longrightarrow> P i"
    and wf: "well_formed it"
  shows "no_malformed (mapFields_body rec cfg (Some it) mc qc p st)"
proof -
  obtain sys els where s: "ri_system it = Some sys" and e: "ri_elements it = Some els"
    using wf by (auto simp: well_formed_def)
  have props: "no_malformed (mapProperties rec cfg mc qc a els s')" for a s'
    by (rule nm_mapProperties [where P = P]) (auto intro: rec mc simp: elements_of_def e)
  show ?thesis
  proof (cases p)
    case SharedArray
    then show ?thesis
      by (auto simp: mapFields_body_def s e Let_def split: prod.splits sum.splits
               dest: find_processed_error intro!: no_malformed_and_then props)
  qed (simp_all add: mapFields_body_def s e)
qed

lemma closed_well_formedD:
  assumes "closed_well_formed mc S" and "i \<in> S"
  shows "well_formed i"
    and "(k, field) \<in> set (elements_of i) \<Longrightarrow> c \<in> set (references field) \<Longrightarrow>
         payload_lookup mc c = Some j \<Longrightarrow> j \<in> S"
proof -
  have *: "well_formed i \<and>
        (\<forall>(k, field) \<in> set (elements_of i). \<forall>c \<in> set (references field).
           \<forall>j. payload_lookup mc c = Some j \<longrightarrow> j \<in> S)"
    using assms unfolding closed_well_formed_def by (rule bspec)
  show "well_formed i" using * by simp
  show "(k, field) \<in> set (elements_of i) \<Longrightarrow> c \<in> set (references field) \<Longrightarrow>
        payload_lookup mc c = Some j \<Longrightarrow> j \<in> S"
    using * by fastforce
qed

lemma nm_mapFields:
  assumes closed: "closed_well_formed mc S"
  shows "it \<in> S \<Longrightarrow> no_malformed (mapFields n cfg (Some it) mc qc p st)"
proof (induction n arbitrary: it st)
  case 0
  have "no_malformed (mapFields_body (\<lambda>it s. None) cfg (Some it) mc qc p st)"
    by (rule nm_body [where P = "\<lambda>i. True"])
       (auto intro: closed_well_formedD(1) [OF closed "0.prems"])
  then show ?case by simp
next
  case (Suc n)
  have "no_malformed (mapFields_body (\<lambda>it s. mapFields n cfg (Some it) mc qc p s) cfg (Some it) mc qc p st)"
  proof (rule nm_body [where P = "\<lambda>i. i \<in> S"])
    fix i s assume "i \<in> S"
    then show "no_malformed (mapFields n cfg (Some i) mc qc p s)" by (rule Suc.IH)
  next
    fix k field c i
    assume "(k, field) \<in> set (elements_of it)" "c \<in> set (references field)"
      "payload_lookup mc c = Some i"
    then show "i \<in> S" by (rule closed_well_formedD(2) [OF closed Suc.prems])
  qed (rule closed_well_formedD(1) [OF closed Suc.prems])
  then show ?case by simp
qed

subsection \<open>The error of a nested call ends the pass\<close>

lemma malformed_call:
  "\<not> well_formed it \<Longrightarrow>
   mapFields n cfg (Some it) mc qc p st = Some (Inl (malformed_error it), st)"
  by (auto simp: mapFields_unfold mapFields_body_def well_formed_def malformed_error_def
           split: option.splits)

lemma calls_after_call:
  assumes "(i, s) \<in> set ((j, st) # calls j st @
             (case rec j st of Some (Inr v, st') \<Rightarrow> rest st' | _ \<Rightarrow> []))"
  shows "(i, s) = (j, st) \<or> (i, s) \<in> set (calls j st) \<or>
         (\<exists>v st'. rec j st = Some (Inr v, st') \<and> (i, s) \<in> set (rest st'))"
proof (cases "rec j st")
  case None
  then show ?thesis using assms by auto
next
  case (Some pr)
  obtain res st' where pr: "pr = (res, st')" by (cases pr)
  show ?thesis using assms Some pr by (cases res) auto
qed

lemma abort_modularItems:
  assumes A1: "\<forall>j s0. \<not> well_formed j \<longrightarrow> rec j s0 = Some (Inl (malformed_error j), s0)"
    and A2: "\<forall>j s0 i s. (i, s) \<in> set (calls j s0) \<and> \<not> well_formed i \<longrightarrow>
               rec j s0 = Some (Inl (malformed_error i), s)"
  shows "(i, s) \<in> set (calls_modularItems rec calls cfg field mc cs st) \<Longrightarrow> \<not> well_formed i \<Longrightarrow>
         mapModularItems rec cfg field mc cs acc st = Some (Inl (malformed_error i), s)"
proof (induction cs arbitrary: acc st)
  case Nil
  then show ?case by simp
next
  case (Cons c cs)
  show ?case
  proof (cases "payload_lookup mc c")
    case None
    then show ?thesis using Cons by simp
  next
    case (Some j)
    note look = Some
    show ?thesis
    proof (cases "find_processed st (map_option sys_codename (ri_system j))")
      case (Inl e)
      then show ?thesis using Cons.prems look by simp
    next
      case (Inr r)
      show ?thesis
      proof (cases r)
        case (Some a)
        then show ?thesis using Cons look Inr by simp
      next
        case None
        have "(i, s) \<in> set ((j, st) # calls j st @
                (case rec j st of
                   Some (Inr v, st') \<Rightarrow> calls_modularItems rec calls cfg field mc cs st'
                 | _ \<Rightarrow> []))"
          using Cons.prems(1) look Inr None by simp
        then have mem: "(i, s) = (j, st) \<or> (i, s) \<in> set (calls j st) \<or>
                   (\<exists>v st'. rec j st = Some (Inr v, st') \<and>
                      (i, s) \<in> set (calls_modularItems rec calls cfg field mc cs st'))"
          by (rule calls_after_call)
        have unfold: "mapModularItems rec cfg field mc (c # cs) acc st =
            and_then (rec j st) (\<lambda>v st'. mapModularItems rec cfg field mc cs (acc @ [v]) st')"
          using look Inr None by simp
        from mem show ?thesis
        proof (elim disjE exE conjE)
          assume "(i, s) = (j, st)"
          then show ?thesis using A1 Cons.prems(2) unfold by simp
        next
          assume "(i, s) \<in> set (calls j st)"
          then show ?thesis using A2 Cons.prems(2) unfold by simp
        next
          fix v st' assume r: "rec j st = Some (Inr v, st')"
            and m: "(i, s) \<in> set (calls_modularItems rec calls cfg field mc cs st')"
          show ?thesis using Cons.IH [OF m Cons.prems(2)] r unfold by simp
        qed
      qed
    qed
  qed
qed

lemma abort_richTextItems:
  assumes A1: "\<forall>j s0. \<not> well_formed j \<longrightarrow> rec j s0 = Some (Inl (malformed_error j), s0)"
    and A2: "\<forall>j s0 i s. (i, s) \<in> set (calls j s0) \<and> \<not> well_formed i \<longrightarrow>
               rec j s0 = Some (Inl (malformed_error i), s)"
  shows "(i, s) \<in> set (calls_richTextItems rec calls mc cs st) \<Longrightarrow> \<not> well_formed i \<Longrightarrow>
         mapRichTextItems rec field mc cs acc st = Some (Inl (malformed_error i), s)"
proof (induction cs arbitrary: acc st)
  case Nil
  then show ?case by simp
next
  case (Cons c cs)
  show ?case
  proof (cases "payload_lookup mc c")
    case None
    then show ?thesis using Cons by simp
  next
    case (Some j)
    have "(i, s) \<in> set ((j, st) # calls j st @
            (case rec j st of
               Some (Inr v, st') \<Rightarrow> calls_richTextItems rec calls mc cs st'
             | _ \<Rightarrow> []))"
      using Cons.prems(1) Some by simp
    then have mem: "(i, s) = (j, st) \<or> (i, s) \<in> set (calls j st) \<or>
               (\<exists>v st'. rec j st = Some (Inr v, st') \<and>
                  (i, s) \<in> set (calls_richTextItems rec calls mc cs st'))"
      by (rule calls_after_call)
    have unfold: "mapRichTextItems rec field mc (c # cs) acc st =
        and_then (rec j st) (\<lambda>v st'. mapRichTextItems rec field mc cs (acc @ [v]) st')"
      using Some by simp
    from mem show ?thesis
    proof (elim disjE exE conjE)
      assume "(i, s) = (j, st)"
      then show ?thesis using A1 Cons.prems(2) unfold by simp
    next
      assume "(i, s) \<in> set (calls j st)"
      then show ?thesis using A2 Cons.prems(2) unfold by simp
    next
      fix v st' assume r: "rec j st = Some (Inr v, st')"
        and m: "(i, s) \<in> set (calls_richTextItems rec calls mc cs st')"
      show ?thesis using Cons.IH [OF m Cons.prems(2)] r unfold by simp
    qed
  qed
qed

lemma abort_field:
  assumes A1: "\<forall>j s0. \<not> well_formed j \<longrightarrow> rec j s0 = Some (Inl (malformed_error j), s0)"
    and A2: "\<forall>j s0 i s. (i, s) \<in> set (calls j s0) \<and> \<not> well_formed i \<longrightarrow>
               rec j s0 = Some (Inl (malformed_error i), s)"
    and m: "(i, s) \<in> set (calls_field rec calls cfg field mc st)" and bad: "\<not> well_formed i"
  shows "mapField rec cfg field mc a qc st = Some (Inl (malformed_error i), s)"
proof (cases "f_type field = toString ft_modular_content")
  case True
  show ?thesis
  proof (cases "f_value field")
    case (VArray cs)
    then have m': "(i, s) \<in> set (calls_modularItems rec calls cfg field mc cs st)"
      using m True by (simp add: calls_field_def)
    have "mapModularItems rec cfg field mc cs [] st = Some (Inl (malformed_error i), s)"
      using m' bad by (rule abort_modularItems [OF A1 A2])
    then show ?thesis using True VArray by (simp add: mapField_def mapModularField_def)
  qed (use m True in \<open>simp_all add: calls_field_def\<close>)
next
  case False
  define cs where "cs = (case f_modular_content field of None \<Rightarrow> [] | Some cs \<Rightarrow> cs)"
  have t: "f_type field = toString ft_rich_text"
    using m False by (auto simp: calls_field_def split: if_splits)
  then have m': "(i, s) \<in> set (calls_richTextItems rec calls mc cs st)"
    using m by (simp add: calls_field_def cs_def)
  have "mapRichTextItems rec field mc cs [] st = Some (Inl (malformed_error i), s)"
    using m' bad by (rule abort_richTextItems [OF A1 A2])
  then show ?thesis using t by (simp add: mapField_def mapRichTextField_def cs_def)
qed

lemma abort_properties:
  assumes A1: "\<forall>j s0. \<not> well_formed j \<longrightarrow> rec j s0 = Some (Inl (malformed_error j), s0)"
    and A2: "\<forall>j s0 i s. (i, s) \<in> set (calls j s0) \<and> \<not> well_formed i \<longrightarrow>
               rec j s0 = Some (Inl (malformed_error i), s)"
  shows "(i, s) \<in> set (calls_properties rec calls cfg mc qc a fs st) \<Longrightarrow> \<not> well_formed i \<Longrightarrow>
         mapProperties rec cfg mc qc a fs st = Some (Inl (malformed_error i), s)"
proof (induction fs arbitrary: st)
  case Nil
  then show ?case by simp
next
  case (Cons f fs)
  obtain k fld where f: "f = (k, fld)" by (cases f)
  show ?case
  proof (cases "propertyName (heap st ! a) k")
    case (Inl e)
    then show ?thesis using Cons.prems by (simp add: f)
  next
    case (Inr name)
    have unfold: "mapProperties rec cfg mc qc a (f # fs) st =
        and_then (mapField rec cfg fld mc a qc st)
          (\<lambda>v st'. mapProperties rec cfg mc qc a fs (set_property a name v st'))"
      using Inr by (simp add: f)
    show ?thesis
    proof (cases "(i, s) \<in> set (calls_field rec calls cfg fld mc st)")
      case True
      have "mapField rec cfg fld mc a qc st = Some (Inl (malformed_error i), s)"
        using True Cons.prems(2) by (rule abort_field [OF A1 A2])
      then show ?thesis using unfold by simp
    next
      case False
      then have rest: "(i, s) \<in> set (case mapField rec cfg fld mc a qc st of
                 Some (Inr v, st') \<Rightarrow>
                   calls_properties rec calls cfg mc qc a fs (set_property a name v st')
               | _ \<Rightarrow> [])"
        using Cons.prems(1) Inr by (simp add: f)
      show ?thesis
      proof (cases "mapField rec cfg fld mc a qc st")
        case None
        then show ?thesis using rest by simp
      next
        case (Some pr)
        obtain res st' where pr: "pr = (res, st')" by (cases pr)
        show ?thesis
        proof (cases res)
          case (Inl e)
          then show ?thesis using rest Some pr by simp
        next
          case (Inr v)
          then have m: "(i, s) \<in> set (calls_properties rec calls cfg mc qc a fs (set_property a name v st'))"
            using rest Some pr by simp
          show ?thesis using Cons.IH [OF m Cons.prems(2)] Some pr Inr unfold by simp
        qed
      qed
    qed
  qed
qed

lemma abort_body:
  assumes A1: "\<forall>j s0. \<not> well_formed j \<longrightarrow> rec j s0 = Some (Inl (malformed_error j), s0)"
    and A2: "\<forall>j s0 i s. (i, s) \<in> set (calls j s0) \<and> \<not> well_formed i \<longrightarrow>
               rec j s0 = Some (Inl (malformed_error i), s)"
    and m: "(i, s) \<in> set (calls_body rec calls cfg item mc qc p st)" and bad: "\<not> well_formed i"
  shows "mapFields_body rec cfg item mc qc p st = Some (Inl (malformed_error i), s)"
proof -
  obtain it where it: "item = Some it"
    using m by (cases item) (simp_all add: calls_body_def)
  obtain sys where sys: "ri_system it = Some sys"
    using m it by (cases "ri_system it") (simp_all add: calls_body_def)
  obtain els where els: "ri_elements it = Some els"
    using m it sys by (cases "ri_elements it") (simp_all add: calls_body_def)
  have p: "p = SharedArray"
    using m it sys els by (cases p) (simp_all add: calls_body_def)
  define obj where "obj = (if hasTypeResolver cfg (sys_type sys)
                        then createTypedObj cfg (sys_type sys) sys else createContentItem sys)"
  define a where "a = length (heap st)"
  define st1 where "st1 = st\<lparr>heap := heap st @ [obj]\<rparr>"
  define st2 where "st2 = (\<lambda>r. case r of None \<Rightarrow> st1\<lparr>processed := processed st1 @ [a]\<rparr> | Some (m :: addr) \<Rightarrow> st1)"
  have calls: "calls_body rec calls cfg item mc qc p st =
      (case find_processed st1 (Some (sys_codename sys)) of
         Inl e \<Rightarrow> []
       | Inr r \<Rightarrow> calls_properties rec calls cfg mc qc a els (st2 r))"
    unfolding calls_body_def it p st1_def a_def obj_def st2_def alloc_def
    using sys els by (simp add: Let_def)
  have body: "mapFields_body rec cfg item mc qc p st =
      (case find_processed st1 (Some (sys_codename sys)) of
         Inl e \<Rightarrow> Some (Inl e, st1)
       | Inr r \<Rightarrow> and_then (mapProperties rec cfg mc qc a els (st2 r)) (\<lambda>u st'. Some (Inr a, st')))"
    unfolding mapFields_body_def it p st1_def a_def obj_def st2_def alloc_def
    using sys els by (simp add: Let_def)
  show ?thesis
  proof (cases "find_processed st1 (Some (sys_codename sys))")
    case (Inl e)
    then show ?thesis using m calls by simp
  next
    case (Inr r)
    then have m': "(i, s) \<in> set (calls_properties rec calls cfg mc qc a els (st2 r))"
      using m calls by simp
    have "mapProperties rec cfg mc qc a els (st2 r) = Some (Inl (malformed_error i), s)"
      using m' bad by (rule abort_properties [OF A1 A2])
    then show ?thesis using body Inr by simp
  qed
qed

lemma nested_call_aborts:
  "(i, s) \<in> set (nested_calls n cfg item mc qc p st) \<Longrightarrow> \<not> well_formed i \<Longrightarrow>
   mapFields n cfg item mc qc p st = Some (Inl (malformed_error i), s)"
proof (induction n arbitrary: item st i s)
  case 0
  then show ?case by simp
next
  case (Suc n)
  have "mapFields_body (\<lambda>it s. mapFields n cfg (Some it) mc qc p s) cfg item mc qc p st =
        Some (Inl (malformed_error i), s)"
  proof (rule abort_body [where calls = "\<lambda>it s. nested_calls n cfg (Some it) mc qc p s"])
    show "\<forall>j s0. \<not> well_formed j \<longrightarrow>
            mapFields n cfg (Some j) mc qc p s0 = Some (Inl (malformed_error j), s0)"
      by (simp add: malformed_call)
    show "\<forall>j s0 i s. (i, s) \<in> set (nested_calls n cfg (Some j) mc qc p s0) \<and> \<not> well_formed i \<longrightarrow>
            mapFields n cfg (Some j) mc qc p s0 = Some (Inl (malformed_error i), s)"
      by (simp add: Suc.IH)
    show "(i, s) \<in> set (calls_body (\<lambda>it s. mapFields n cfg (Some it) mc qc p s)
            (\<lambda>it s. nested_calls n cfg (Some it) mc qc p s) cfg item mc qc p st)"
      using Suc.prems(1) by simp
  qed (rule Suc.prems(2))
  then show ?case by simp
qed

text \<open>
  C3: an item passed to \<^verbatim>\<open>mapFields\<close> without system attributes or without elements makes
  \<^verbatim>\<open>mapFields\<close> throw the \<open>MalformedResponse\<close> error with the store as it was: no typed item
  has been created or registered, and no item is returned. When such an item is passed to a
  nested call of \<^verbatim>\<open>mapFields\<close>, from a linked-items field or from a rich text and at
  whatever depth, the whole pass throws that error, with the store in which the nested call
  started. When the item has both, its own call does not take this branch (the error can
  only come out of a nested call), and when the items that the pass can reach from it have
  both as well, no call of the mapping pass takes it.
\<close>

theorem malformed_item_aborts:
  "(ri_system it = None \<or> ri_elements it = None \<longrightarrow>
      (\<exists>m. mapFields n cfg (Some it) mc qc p st = Some (Inl (MalformedResponse m), st))) \<and>
   (\<forall>i s. (i, s) \<in> set (nested_calls n cfg (Some it) mc qc p st) \<and>
           (ri_system i = None \<or> ri_elements i = None) \<longrightarrow>
      (\<exists>m. mapFields n cfg (Some it) mc qc p st = Some (Inl (MalformedResponse m), s))) \<and>
   (well_formed it \<and> (\<forall>i s. no_malformed (rec i s)) \<longrightarrow>
      no_malformed (mapFields_body rec cfg (Some it) mc qc p st)) \<and>
   (it \<in> S \<and> closed_well_formed mc S \<longrightarrow>
      (\<forall>m st'. mapFields n cfg (Some it) mc qc p st \<noteq> Some (Inl (MalformedResponse m), st')))"
proof (intro conjI impI allI)
  assume "ri_system it = None \<or> ri_elements it = None"
  then show "\<exists>m. mapFields n cfg (Some it) mc qc p st = Some (Inl (MalformedResponse m), st)"
    by (auto simp: mapFields_unfold mapFields_body_def split: option.splits)
next
  fix i s
  assume a: "(i, s) \<in> set (nested_calls n cfg (Some it) mc qc p st) \<and>
             (ri_system i = None \<or> ri_elements i = None)"
  then have "\<not> well_formed i" by (auto simp: well_formed_def)
  then have "mapFields n cfg (Some it) mc qc p st = Some (Inl (malformed_error i), s)"
    using a by (intro nested_call_aborts) simp
  then show "\<exists>m. mapFields n cfg (Some it) mc qc p st = Some (Inl (MalformedResponse m), s)"
    by (auto simp: malformed_error_def split: option.splits)
next
  assume a: "well_formed it \<and> (\<forall>i s. no_malformed (rec i s))"
  show "no_malformed (mapFields_body rec cfg (Some it) mc qc p st)"
    by (rule nm_body [where P = "\<lambda>i. True"]) (use a in simp_all)
next
  fix m st'
  assume a: "it \<in> S \<and> closed_well_formed mc S"
  then have "no_malformed (mapFields n cfg (Some it) mc qc p st)"
    by (intro nm_mapFields [where S = S]) simp_all
  then show "mapFields n cfg (Some it) mc qc p st \<noteq> Some (Inl (MalformedResponse m), st')"
    by (auto simp: no_malformed_def)
qed

theorem malformed_item_aborts_witness:
  "(ri_system item_m = None \<or> ri_elements item_m = None) \<and>
   mapFields 1 cfg_quiet (Some item_m) payload_ab qc_none SharedArray empty_state =
     Some (Inl (MalformedResponse (NoElements ''m'')), empty_state) \<and>
   nested_calls 1 cfg_quiet (Some item_n) payload_m qc_none SharedArray empty_state =
     [(item_m, \<lparr>heap = [createContentItem (sys_of ''n'')], processed = [0], warnings = []\<rparr>)] \<and>
   mapFields 1 cfg_quiet (Some item_n) payload_m qc_none SharedArray empty_state =
     Some (Inl (MalformedResponse (NoElements ''m'')),
           \<lparr>heap = [createContentItem (sys_of ''n'')], processed = [0], warnings = []\<rparr>) \<and>
   nested_calls 1 cfg_quiet (Some item_e) payload_m qc_none SharedArray empty_state =
     [(item_m, \<lparr>heap = [createContentItem (sys_of ''e'')], processed = [0], warnings = []\<rparr>)] \<and>
   mapFields 1 cfg_quiet (Some item_e) payload_m qc_none SharedArray empty_state =
     Some (Inl (MalformedResponse (NoElements ''m'')),
           \<lparr>heap = [createContentItem (sys_of ''e'')], processed = [0], warnings = []\<rparr>) \<and>
   nested_calls 2 cfg_quiet (Some item_g) payload_em qc_none SharedArray empty_state =
     [(item_e, \<lparr>heap = [createContentItem (sys_of ''g'')], processed = [0], warnings = []\<rparr>),
      (item_m, \<lparr>heap = [createContentItem (sys_of ''g''), createContentItem (sys_of ''e'')],
                processed = [0, 1], warnings = []\<rparr>)] \<and>
   mapFields 2 cfg_quiet (Some item_g) payload_em qc_none SharedArray empty_state =
     Some (Inl (MalformedResponse (NoElements ''m'')),
           \<lparr>heap = [createContentItem (sys_of ''g''), createContentItem (sys_of ''e'')],
            processed = [0, 1], warnings = []\<rparr>) \<and>
   item_a \<in> {item_a, item_b} \<and> closed_well_formed payload_ab {item_a, item_b} \<and>
   no_malformed (mapFields_body (\<lambda>i s. None) cfg_quiet (Some item_a) payload_ab qc_none
                   SharedArray empty_state) \<and>
   mapFields 1 cfg_quiet (Some item_a) payload_ab qc_none SharedArray empty_state \<noteq>
     Some (Inl (MalformedResponse NoSystem), empty_state)"
  using malformed_item_aborts
      [where it = item_m and n = 1 and cfg = cfg_quiet and mc = payload_ab and qc = qc_none
         and p = SharedArray and st = empty_state and rec = "\<lambda>i s. None" and S = "{}"]
    malformed_item_aborts
      [where it = item_n and n = 1 and cfg = cfg_quiet and mc = payload_m and qc = qc_none
         and p = SharedArray and st = empty_state and rec = "\<lambda>i s. None" and S = "{}"]
    malformed_item_aborts
      [where it = item_e and n = 1 and cfg = cfg_quiet and mc = payload_m and qc = qc_none
         and p = SharedArray and st = empty_state and rec = "\<lambda>i s. None" and S = "{}"]
    malformed_item_aborts
      [where it = item_g and n = 2 and cfg = cfg_quiet and mc = payload_em and qc = qc_none
         and p = SharedArray and st = empty_state and rec = "\<lambda>i s. None" and S = "{}"]
    malformed_item_aborts
      [where it = item_a and n = 1 and cfg = cfg_quiet and mc = payload_ab and qc = qc_none
         and p = SharedArray and st = empty_state and rec = "\<lambda>i s. None"
         and S = "{item_a, item_b}"]
  by (simp add: item_m_def item_a_def item_b_def item_n_def item_e_def item_g_def payload_ab_def
        payload_m_def payload_em_def numeral_2_eq_2
        well_formed_def closed_well_formed_def references_def elements_of_def payload_lookup_def
        mapFields_body_def calls_body_def calls_field_def sys_of_def linked_field_def rich_field_def
        cfg_quiet_def hasTypeResolver_def alloc_def find_processed_def system_codename_def
        propertyName_def falsy_name_def empty_state_def mapField_def mapModularField_def
        mapRichTextField_def createContentItem_def set_property_def)

section \<open>The processed items argument\<close>

text \<open>
  C10: when the \<^verbatim>\<open>processedItems\<close> argument is \<open>null\<close>, \<open>undefined\<close> or not an array,
  \<^verbatim>\<open>mapFields\<close> throws before it maps anything: the store is as it was.
\<close>

theorem processedItems_must_be_array:
  "p \<noteq> SharedArray \<Longrightarrow> \<exists>e. mapFields n cfg item mc qc p st = Some (Inl e, st)"
  by (cases p) (auto simp: mapFields_unfold mapFields_body_def split: option.splits)

theorem processedItems_must_be_array_witness:
  "Nullish \<noteq> SharedArray \<and>
   mapFields 1 cfg_quiet (Some item_a) payload_ab qc_none Nullish empty_state =
     Some (Inl ProcessedItemsNotInitialized, empty_state) \<and>
   mapFields 1 cfg_quiet (Some item_a) payload_ab qc_none (NotArray True) empty_state =
     Some (Inl ProcessedItemsNotArray, empty_state)"
  using processedItems_must_be_array [of Nullish 1 cfg_quiet "Some item_a" payload_ab qc_none empty_state]
  by (simp add: item_a_def mapFields_body_def)

section \<open>Field dispatch\<close>

lemma custom_not_a_type: "''custom'' \<noteq> toString t"
  by (cases t) simp_all

text \<open>
  C4, as amended: a raw field whose type string is none of the nine makes the dispatch throw
  \<open>UnsupportedFieldType\<close> under every configuration; advanced logging adds a warning before
  the throw and does not replace it.
\<close>

theorem unsupported_type_always_throws:
  "\<forall>t. f_type field \<noteq> toString t \<Longrightarrow>
   mapField rec cfg field mc item qc st =
     Some (Inl (UnsupportedFieldType (f_type field)),
           if enableAdvancedLogging cfg
           then st\<lparr>warnings := warnings st @ [WarnUnsupportedFieldType (f_type field)]\<rparr> else st)"
  by (simp add: mapField_def warn_def del: toString.simps)

theorem unsupported_type_always_throws_witness:
  "(\<forall>t. f_type custom_field \<noteq> toString t) \<and>
   mapField (\<lambda>i s. None) cfg_quiet custom_field [] 0 qc_none empty_state =
     Some (Inl (UnsupportedFieldType ''custom''), empty_state)"
  using unsupported_type_always_throws [of custom_field "\<lambda>i s. None" cfg_quiet "[]" 0 qc_none empty_state]
  by (simp add: custom_field_def cfg_quiet_def custom_not_a_type)

theorem unsupported_type_warn_counterexample:
  "mapField (\<lambda>i s. None) cfg_logging custom_field [] 0 qc_none empty_state =
     Some (Inl (UnsupportedFieldType ''custom''),
           empty_state\<lparr>warnings := [WarnUnsupportedFieldType ''custom'']\<rparr>)"
  by (simp add: mapField_def custom_field_def cfg_logging_def warn_def empty_state_def)

section \<open>Codenames missing from the sibling payload\<close>

lemma mapModularItems_append:
  "mapModularItems rec cfg field mc (xs @ ys) acc st =
     and_then (mapModularItems rec cfg field mc xs acc st)
       (\<lambda>acc' st'. mapModularItems rec cfg field mc ys acc' st')"
proof (induction xs arbitrary: acc st)
  case Nil
  show ?case by simp
next
  case (Cons c xs)
  show ?case
    by (auto simp: Cons.IH and_then_assoc_items split: option.splits sum.splits
             intro!: and_then_cong)
qed

lemma mapRichTextItems_append:
  "mapRichTextItems rec field mc (xs @ ys) acc st =
     and_then (mapRichTextItems rec field mc xs acc st)
       (\<lambda>acc' st'. mapRichTextItems rec field mc ys acc' st')"
proof (induction xs arbitrary: acc st)
  case Nil
  show ?case by simp
next
  case (Cons c xs)
  show ?case
    by (auto simp: Cons.IH and_then_assoc_items split: option.splits intro!: and_then_cong)
qed

text \<open>
  C5, as amended: in a linked-items field a codename for which the sibling payload gives
  nothing (\<^verbatim>\<open>modularContent[codename]\<close> is undefined) is left out of the list under every
  configuration (the items before and after it are mapped as without it, and advanced
  logging adds a warning); no configuration makes it throw. Such a codename listed by a
  rich text field always throws, once the codenames before it are mapped.
\<close>

theorem missing_linked_item_dropped_or_thrown:
  assumes "payload_lookup mc c = None"
  shows "mapModularItems rec cfg field mc (xs @ c # ys) acc st =
           and_then (mapModularItems rec cfg field mc xs acc st)
             (\<lambda>acc' st'. mapModularItems rec cfg field mc ys acc'
                           (warn cfg (WarnModularItemMissing (f_name field)) st'))
         \<and> mapRichTextItems rec richText mc (xs @ c # ys) acc st =
           and_then (mapRichTextItems rec richText mc xs acc st)
             (\<lambda>acc' st'. Some (Inl (ModularItemNotInResponse c (f_name richText)), st'))"
  using assms by (simp add: mapModularItems_append mapRichTextItems_append)

theorem missing_linked_item_dropped_or_thrown_witness:
  "payload_lookup [] ''x'' = None \<and>
   mapModularItems (\<lambda>i s. None) cfg_logging (linked_field [''x'']) [] ([] @ ''x'' # []) [] empty_state =
     Some (Inr [], empty_state\<lparr>warnings := [WarnModularItemMissing ''Related'']\<rparr>) \<and>
   mapRichTextItems (\<lambda>i s. None) (rich_field [''x'']) [] ([] @ ''x'' # []) [] empty_state =
     Some (Inl (ModularItemNotInResponse ''x'' ''Body''), empty_state)"
  using missing_linked_item_dropped_or_thrown
    [where mc="[]" and c="''x''" and rec="\<lambda>i s. None" and cfg=cfg_logging and xs="[]" and ys="[]"
       and acc="[]" and st=empty_state
       and field="linked_field [''x'']" and richText="rich_field [''x'']"]
  by (simp add: payload_lookup_def object_members_def warn_def cfg_logging_def linked_field_def
        rich_field_def empty_state_def)

theorem rich_text_missing_item_counterexample:
  "mapFields 0 cfg_quiet (Some item_r) [] qc_none SharedArray empty_state =
     Some (Inl (ModularItemNotInResponse ''x'' ''Body''),
           \<lparr>heap = [createContentItem (sys_of ''r'')], processed = [0], warnings = []\<rparr>)"
  by (simp add: item_r_def mapFields_body_def cfg_quiet_def hasTypeResolver_def alloc_def
        find_processed_def empty_state_def mapField_def mapRichTextField_def rich_field_def
        payload_lookup_def object_members_def propertyName_def falsy_name_def
        createContentItem_def)

text \<open>
  A codename that is no key of the payload and names an inherited member is not such a
  codename: the payload object gives the inherited function for it. The linked-items field
  reads its codename in the callback of \<^verbatim>\<open>find\<close> (a \<open>TypeError\<close>), and the rich text passes
  it to \<^verbatim>\<open>mapFields\<close>, which finds no system attributes.
\<close>

lemma inherited_member_is_read:
  "mapFields 1 cfg_quiet (Some (item_c linked_field)) [] qc_none SharedArray empty_state =
     Some (Inl TypeError,
           \<lparr>heap = [createContentItem (sys_of ''c'')], processed = [0], warnings = []\<rparr>) \<and>
   mapFields 1 cfg_quiet (Some (item_c rich_field)) [] qc_none SharedArray empty_state =
     Some (Inl (MalformedResponse NoSystem),
           \<lparr>heap = [createContentItem (sys_of ''c'')], processed = [0], warnings = []\<rparr>)"
  by (simp add: item_c_def mapFields_body_def cfg_quiet_def hasTypeResolver_def alloc_def
        find_processed_def system_codename_def empty_state_def mapField_def mapModularField_def
        mapRichTextField_def rich_field_def linked_field_def
        payload_lookup_def object_members_def propertyName_def falsy_name_def
        createContentItem_def sys_of_def)

section \<open>Items that are processed already\<close>

text \<open>
  C2: by the claim, \<^verbatim>\<open>mapFields\<close> on an item whose codename has an entry in
  \<^verbatim>\<open>processedItems\<close> returns that entry at once and maps none of the fields again. The
  code does otherwise: here the entry is the object at address 0, and the call creates the
  object at address 1, maps the title into it and returns it.
\<close>

theorem processed_item_mapped_again:
  "mapFields 0 cfg_quiet (Some item_w) [] qc_none SharedArray store_w =
     Some (Inr 1,
           \<lparr>heap = [createContentItem (sys_of ''w''),
                    (createContentItem (sys_of ''w''))
                      \<lparr>ti_props := [(''title'', TextField ''Title'' (VStr ''Warrior''))]\<rparr>],
            processed = [0], warnings = []\<rparr>)"
  by (simp add: item_w_def store_w_def mapFields_body_def cfg_quiet_def hasTypeResolver_def alloc_def
        find_processed_def system_codename_def mapField_def text_field_def set_property_def
        propertyName_def createContentItem_def falsy_name_def sys_of_def)

text \<open>
  The same within one mapping pass: \<open>item_d\<close> references \<open>item_w\<close> from its linked-items
  field and embeds it in its rich text. The rich text gets a second object for \<open>item_w\<close>
  (address 2), not the processed one (address 1).
\<close>

lemma embedded_item_mapped_twice:
  "mapFields 1 cfg_quiet (Some item_d) payload_w qc_none SharedArray empty_state =
     Some (Inr 0,
           \<lparr>heap = [\<lparr>ti_system = sys_of ''d'', ti_class = None,
                     ti_props = [(''related'', ModularItems [1]),
                                 (''body'', RichTextField ''Body'' (VStr ''<p></p>'') [2] [])]\<rparr>,
                    \<lparr>ti_system = sys_of ''w'', ti_class = None,
                     ti_props = [(''title'', TextField ''Title'' (VStr ''Warrior''))]\<rparr>,
                    \<lparr>ti_system = sys_of ''w'', ti_class = None,
                     ti_props = [(''title'', TextField ''Title'' (VStr ''Warrior''))]\<rparr>],
            processed = [0, 1], warnings = []\<rparr>)"
  by (simp add: item_d_def item_w_def payload_w_def both_fields_def linked_field_def rich_field_def
        text_field_def mapFields_body_def cfg_quiet_def hasTypeResolver_def payload_lookup_def
        alloc_def find_processed_def system_codename_def empty_state_def mapField_def
        mapModularField_def mapRichTextField_def mapRichTextLinks_def
        set_property_def propertyName_def createContentItem_def falsy_name_def sys_of_def)

text \<open>
  An element of the name \<open>system\<close> is mapped into the property \<open>system\<close> of the typed
  item: the item is registered, and the lookup of its codename in the processed items
  finds nothing from then on.
\<close>

lemma element_named_system:
  "mapFields 0 cfg_quiet (Some item_t) [] qc_none SharedArray empty_state =
     Some (Inr 0,
           \<lparr>heap = [\<lparr>ti_system = sys_of ''t'', ti_class = None,
                     ti_props = [(''system'', TextField ''Title'' (VStr ''T''))]\<rparr>],
            processed = [0], warnings = []\<rparr>) \<and>
   find_processed
     \<lparr>heap = [\<lparr>ti_system = sys_of ''t'', ti_class = None,
               ti_props = [(''system'', TextField ''Title'' (VStr ''T''))]\<rparr>],
      processed = [0], warnings = []\<rparr> (Some ''t'') = Inr None"
  by (simp add: item_t_def mapFields_body_def cfg_quiet_def hasTypeResolver_def alloc_def
        find_processed_def system_codename_def mapField_def text_field_def set_property_def
        propertyName_def createContentItem_def falsy_name_def sys_of_def empty_state_def)

section \<open>Linked items in rich text\<close>

text \<open>
  C6: the html of an embed whose item is in the graph is the output of the rich text
  resolver of the query when there is one, else of the resolver that the item declares,
  else the empty string, without an error.
\<close>

theorem linked_item_html_resolver_precedence:
  assumes "getLinkedItem itemCodename = Some linkedItem"
  shows "(\<forall>perQuery. richTextResolver (rc_queryConfig config) = Some perQuery \<longrightarrow>
            getLinkedItemHtml config getLinkedItem itemCodename itemType =
              (Inr (perQuery linkedItem itemType), []))
       \<and> (\<forall>c own. richTextResolver (rc_queryConfig config) = None \<and> ci_config linkedItem = Some c \<and>
            ic_richTextResolver c = Some own \<longrightarrow>
            getLinkedItemHtml config getLinkedItem itemCodename itemType = (Inr (own itemType), []))
       \<and> (richTextResolver (rc_queryConfig config) = None \<and>
            (ci_config linkedItem = None \<or>
             (\<exists>c. ci_config linkedItem = Some c \<and> ic_richTextResolver c = None)) \<longrightarrow>
            getLinkedItemHtml config getLinkedItem itemCodename itemType =
              (Inr [], if rc_enableAdvancedLogging config
                       then [WarnNoRichTextResolver (ci_type linkedItem) itemCodename] else []))"
  using assms by (auto simp: getLinkedItemHtml_def console_warn_def)

theorem linked_item_html_resolver_precedence_witness:
  "graph_xy ''actor_x'' = Some actor_x \<and> graph_xy ''actor_y'' = Some actor_y \<and>
   getLinkedItemHtml per_query graph_xy ''actor_x'' ''linkedItem'' = (Inr ''<query/>'', []) \<and>
   getLinkedItemHtml lenient graph_xy ''actor_x'' ''linkedItem'' = (Inr ''<own/>'', []) \<and>
   getLinkedItemHtml lenient graph_xy ''actor_y'' ''linkedItem'' = (Inr [], [])"
  using linked_item_html_resolver_precedence [of graph_xy "''actor_x''" actor_x per_query "''linkedItem''"]
    linked_item_html_resolver_precedence [of graph_xy "''actor_x''" actor_x lenient "''linkedItem''"]
    linked_item_html_resolver_precedence [of graph_xy "''actor_y''" actor_y lenient "''linkedItem''"]
  by (simp add: graph_xy_def per_query_def lenient_def default_queryConfig_def actor_x_def actor_y_def)

text \<open>
  C7: an embed whose item is not in the graph throws \<open>LinkedItemNotFound\<close> when
  \<^verbatim>\<open>throwErrorForMissingLinkedItems\<close> is set, and else resolves to the empty string, with
  a warning under advanced logging; the query configuration that sets nothing is lenient.
\<close>

theorem missing_linked_item_strict_or_lenient:
  assumes "getLinkedItem itemCodename = None"
  shows "(throwErrorForMissingLinkedItems (rc_queryConfig config) = Some True \<longrightarrow>
            getLinkedItemHtml config getLinkedItem itemCodename itemType =
              (Inl (LinkedItemNotFound itemCodename), []))
       \<and> (throwErrorForMissingLinkedItems (rc_queryConfig config) \<noteq> Some True \<longrightarrow>
            getLinkedItemHtml config getLinkedItem itemCodename itemType =
              (Inr [], if rc_enableAdvancedLogging config then [WarnLinkedItemMissing itemCodename] else []))
       \<and> (rc_queryConfig config = default_queryConfig \<longrightarrow>
            fst (getLinkedItemHtml config getLinkedItem itemCodename itemType) = Inr [])"
  using assms by (auto simp: getLinkedItemHtml_def console_warn_def flag_def default_queryConfig_def)

theorem missing_linked_item_strict_or_lenient_witness:
  "graph_xy ''actor_z'' = None \<and>
   getLinkedItemHtml strict graph_xy ''actor_z'' ''linkedItem'' = (Inl (LinkedItemNotFound ''actor_z''), []) \<and>
   getLinkedItemHtml lenient graph_xy ''actor_z'' ''linkedItem'' = (Inr [], []) \<and>
   getLinkedItemHtml lenient_logging graph_xy ''actor_z'' ''linkedItem'' =
     (Inr [], [WarnLinkedItemMissing ''actor_z''])"
  using missing_linked_item_strict_or_lenient [of graph_xy "''actor_z''" strict "''linkedItem''"]
    missing_linked_item_strict_or_lenient [of graph_xy "''actor_z''" lenient "''linkedItem''"]
    missing_linked_item_strict_or_lenient [of graph_xy "''actor_z''" lenient_logging "''linkedItem''"]
  by (simp add: graph_xy_def strict_def lenient_def lenient_logging_def default_queryConfig_def)

section \<open>Links in rich text\<close>

text \<open>
  C8, as amended: a link id that the links of the element do not contain resolves to the
  empty html and url and never throws, whatever the configuration; the diagnostic is
  written under advanced logging only.
\<close>

theorem missing_link_empty_result:
  assumes "find (\<lambda>m. linkId m = itemId) links = None"
  shows "getUrlSlugResult config links itemId getLinkedItem linkText getGlobalUrlSlugResolver =
           (Inr \<lparr>res_html = [], res_url = []\<rparr>,
            if rc_enableAdvancedLogging config then [WarnLinkNotFound itemId] else [])"
  using assms by (simp add: getUrlSlugResult_def console_warn_def)

theorem missing_link_empty_result_witness:
  "find (\<lambda>m. linkId m = ''id1'') [] = None \<and>
   getUrlSlugResult strict [] ''id1'' graph_xy ''more'' (\<lambda>t. None) =
     (Inr \<lparr>res_html = [], res_url = []\<rparr>, []) \<and>
   getUrlSlugResult lenient_logging [] ''id1'' graph_xy ''more'' (\<lambda>t. None) =
     (Inr \<lparr>res_html = [], res_url = []\<rparr>, [WarnLinkNotFound ''id1''])"
  using missing_link_empty_result [of "''id1''" "[]" strict graph_xy "''more''" "\<lambda>t. None"]
    missing_link_empty_result [of "''id1''" "[]" lenient_logging graph_xy "''more''" "\<lambda>t. None"]
  by (simp add: strict_def lenient_logging_def)

theorem missing_link_no_diagnostic_counterexample:
  "snd (getUrlSlugResult lenient [] ''id1'' graph_xy ''more'' (\<lambda>t. None)) = []"
  by (simp add: getUrlSlugResult_def console_warn_def lenient_def)

section \<open>Images in rich text\<close>

subsection \<open>The search through the linked items\<close>

lemma searchLinkedItems_mono:
  assumes rec: "\<forall>j r. rec j = Some r \<longrightarrow> rec' j = Some r"
  shows "searchLinkedItems rec getLinkedItem cs = Some r \<Longrightarrow>
         searchLinkedItems rec' getLinkedItem cs = Some r"
proof (induction cs)
  case Nil
  then show ?case by simp
next
  case (Cons c cs)
  show ?case
  proof (cases "getLinkedItem c")
    case None
    then show ?thesis using Cons by simp
  next
    case (Some j)
    show ?thesis
    proof (cases "rec j")
      case None
      then show ?thesis using Cons.prems Some by simp
    next
      case found: (Some x)
      then have "rec' j = Some x" using rec by simp
      then show ?thesis using Cons Some found by (cases x) auto
    qed
  qed
qed

lemma searchProperties_mono:
  assumes rec: "\<forall>j r. rec j = Some r \<longrightarrow> rec' j = Some r"
  shows "searchProperties rec getLinkedItem imgId props = Some r \<Longrightarrow>
         searchProperties rec' getLinkedItem imgId props = Some r"
proof (induction props)
  case Nil
  then show ?case by simp
next
  case (Cons pe props)
  obtain p e where pe: "pe = (p, e)" by (cases pe)
  show ?case
  proof (cases e)
    case (OtherValue t)
    then show ?thesis using Cons pe by simp
  next
    case (RichTextElement images cs)
    show ?thesis
    proof (cases "find (\<lambda>m. imageId m = imgId) images")
      case (Some img)
      have "r = Some img" using Cons.prems pe RichTextElement Some by simp
      then show ?thesis using pe RichTextElement Some by simp
    next
      case None
      show ?thesis
      proof (cases "searchLinkedItems rec getLinkedItem cs")
        case no_result: None
        then show ?thesis using Cons.prems pe RichTextElement None by simp
      next
        case found: (Some x)
        then have "searchLinkedItems rec' getLinkedItem cs = Some x"
          by (rule searchLinkedItems_mono [OF rec])
        then show ?thesis using Cons pe RichTextElement None found by (cases x) auto
      qed
    qed
  qed
qed

lemma tryGetImage_Suc:
  "tryGetImageFromLinkedItem n imgId j getLinkedItem = Some r \<Longrightarrow>
   tryGetImageFromLinkedItem (Suc n) imgId j getLinkedItem = Some r"
proof (induction n arbitrary: j r)
  case 0
  have "searchProperties (\<lambda>linkedItem. tryGetImageFromLinkedItem 0 imgId linkedItem getLinkedItem)
          getLinkedItem imgId (own_properties j) = Some r"
  proof (rule searchProperties_mono [where rec = "\<lambda>linkedItem. None"])
    show "searchProperties (\<lambda>linkedItem. None) getLinkedItem imgId (own_properties j) = Some r"
      using "0.prems" by simp
  qed simp
  then show ?case by simp
next
  case (Suc n)
  have "searchProperties (\<lambda>linkedItem. tryGetImageFromLinkedItem (Suc n) imgId linkedItem getLinkedItem)
          getLinkedItem imgId (own_properties j) = Some r"
  proof (rule searchProperties_mono
          [where rec = "\<lambda>linkedItem. tryGetImageFromLinkedItem n imgId linkedItem getLinkedItem"])
    show "\<forall>j r. tryGetImageFromLinkedItem n imgId j getLinkedItem = Some r \<longrightarrow>
            tryGetImageFromLinkedItem (Suc n) imgId j getLinkedItem = Some r"
      using Suc.IH by blast
    show "searchProperties (\<lambda>linkedItem. tryGetImageFromLinkedItem n imgId linkedItem getLinkedItem)
            getLinkedItem imgId (own_properties j) = Some r"
      using Suc.prems by simp
  qed
  then show ?case by simp
qed

lemma tryGetImage_mono:
  "n \<le> m \<Longrightarrow> tryGetImageFromLinkedItem n imgId j getLinkedItem = Some r \<Longrightarrow>
   tryGetImageFromLinkedItem m imgId j getLinkedItem = Some r"
proof (induction m)
  case 0
  then show ?case by simp
next
  case (Suc m)
  show ?case
  proof (cases "n = Suc m")
    case True
    then show ?thesis using Suc.prems by simp
  next
    case False
    then have "tryGetImageFromLinkedItem m imgId j getLinkedItem = Some r"
      using Suc by simp
    then show ?thesis by (rule tryGetImage_Suc)
  qed
qed

text \<open>
  The search comes to an end without the image in every set of items that is closed under
  the links of its rich texts, holds the image nowhere and has no cycle of links.
\<close>

lemma searchLinkedItems_none:
  assumes "\<And>c j. c \<in> set cs \<Longrightarrow> getLinkedItem c = Some j \<Longrightarrow> rec j = Some None"
  shows "searchLinkedItems rec getLinkedItem cs = Some None"
  using assms
proof (induction cs)
  case Nil
  show ?case by simp
next
  case (Cons c cs)
  have rest: "searchLinkedItems rec getLinkedItem cs = Some None"
  proof (rule Cons.IH)
    fix c' j assume "c' \<in> set cs" "getLinkedItem c' = Some j"
    then show "rec j = Some None" using Cons.prems [of c' j] by simp
  qed
  show ?case
  proof (cases "getLinkedItem c")
    case None
    then show ?thesis using rest by simp
  next
    case (Some j)
    then have "rec j = Some None" using Cons.prems [of c j] by simp
    then show ?thesis using Some rest by simp
  qed
qed

lemma searchProperties_none:
  assumes "\<And>p images cs. (p, RichTextElement images cs) \<in> set props \<Longrightarrow>
             find (\<lambda>m. imageId m = imgId) images = None \<and>
             searchLinkedItems rec getLinkedItem cs = Some None"
  shows "searchProperties rec getLinkedItem imgId props = Some None"
  using assms
proof (induction props)
  case Nil
  show ?case by simp
next
  case (Cons pe props)
  obtain p e where pe: "pe = (p, e)" by (cases pe)
  have rest: "searchProperties rec getLinkedItem imgId props = Some None"
  proof (rule Cons.IH)
    fix p images cs assume "(p, RichTextElement images cs) \<in> set props"
    then show "find (\<lambda>m. imageId m = imgId) images = None \<and>
               searchLinkedItems rec getLinkedItem cs = Some None"
      using Cons.prems [of p images cs] by simp
  qed
  show ?case
  proof (cases e)
    case (OtherValue t)
    then show ?thesis using rest pe by simp
  next
    case (RichTextElement images cs)
    then have "find (\<lambda>m. imageId m = imgId) images = None \<and>
               searchLinkedItems rec getLinkedItem cs = Some None"
      using Cons.prems [of p images cs] pe by simp
    then show ?thesis using rest pe RichTextElement by simp
  qed
qed

lemma image_absentD:
  assumes "image_absent imgId getLinkedItem rank S" and "j \<in> S"
    and "(p, RichTextElement images cs) \<in> set (own_properties j)"
  shows "find (\<lambda>m. imageId m = imgId) images = None"
    and "c \<in> set cs \<Longrightarrow> getLinkedItem c = Some j' \<Longrightarrow> j' \<in> S \<and> rank j' < rank j"
proof -
  have "\<forall>(p, e) \<in> set (own_properties j). \<forall>images cs. e = RichTextElement images cs \<longrightarrow>
          find (\<lambda>m. imageId m = imgId) images = None \<and>
          (\<forall>c \<in> set cs. \<forall>j'. getLinkedItem c = Some j' \<longrightarrow> j' \<in> S \<and> rank j' < rank j)"
    using assms(1,2) unfolding image_absent_def by (rule bspec)
  then have *: "find (\<lambda>m. imageId m = imgId) images = None \<and>
          (\<forall>c \<in> set cs. \<forall>j'. getLinkedItem c = Some j' \<longrightarrow> j' \<in> S \<and> rank j' < rank j)"
    using assms(3) by fastforce
  show "find (\<lambda>m. imageId m = imgId) images = None" using * by simp
  show "c \<in> set cs \<Longrightarrow> getLinkedItem c = Some j' \<Longrightarrow> j' \<in> S \<and> rank j' < rank j"
    using * by simp
qed

lemma tryGetImage_none:
  assumes absent: "image_absent imgId getLinkedItem rank S"
  shows "j \<in> S \<Longrightarrow> rank j \<le> n \<Longrightarrow>
         tryGetImageFromLinkedItem n imgId j getLinkedItem = Some None"
proof (induction n arbitrary: j)
  case 0
  have "searchProperties (\<lambda>linkedItem. None) getLinkedItem imgId (own_properties j) = Some None"
  proof (rule searchProperties_none, intro conjI)
    fix p images cs assume m: "(p, RichTextElement images cs) \<in> set (own_properties j)"
    show "find (\<lambda>m. imageId m = imgId) images = None"
      by (rule image_absentD(1) [OF absent "0.prems"(1) m])
    show "searchLinkedItems (\<lambda>linkedItem. None) getLinkedItem cs = Some None"
    proof (rule searchLinkedItems_none)
      fix c j' assume "c \<in> set cs" "getLinkedItem c = Some j'"
      then have "rank j' < rank j" using image_absentD(2) [OF absent "0.prems"(1) m] by simp
      then show "None = Some None" using "0.prems"(2) by simp
    qed
  qed
  then show ?case by simp
next
  case (Suc n)
  have "searchProperties (\<lambda>linkedItem. tryGetImageFromLinkedItem n imgId linkedItem getLinkedItem)
          getLinkedItem imgId (own_properties j) = Some None"
  proof (rule searchProperties_none, intro conjI)
    fix p images cs assume m: "(p, RichTextElement images cs) \<in> set (own_properties j)"
    show "find (\<lambda>m. imageId m = imgId) images = None"
      by (rule image_absentD(1) [OF absent Suc.prems(1) m])
    show "searchLinkedItems (\<lambda>linkedItem. tryGetImageFromLinkedItem n imgId linkedItem getLinkedItem)
            getLinkedItem cs = Some None"
    proof (rule searchLinkedItems_none)
      fix c j' assume c: "c \<in> set cs" "getLinkedItem c = Some j'"
      then have "j' \<in> S \<and> rank j' < rank j"
        by (rule image_absentD(2) [OF absent Suc.prems(1) m])
      then have "j' \<in> S" "rank j' \<le> n" using Suc.prems(2) by simp_all
      then show "tryGetImageFromLinkedItem n imgId j' getLinkedItem = Some None"
        by (rule Suc.IH)
    qed
  qed
  then show ?case by simp
qed

lemma actor_y_search:
  "tryGetImageFromLinkedItem n ''i9'' actor_y graph_xy = Some None"
proof (rule tryGetImage_none [where S = "{actor_y}" and rank = "\<lambda>j. 0"])
  show "image_absent ''i9'' graph_xy (\<lambda>j. 0) {actor_y}"
    by (simp add: image_absent_def actor_y_def own_properties_def)
qed simp_all

text \<open>
  A rich text that links to its own item: the search for an image that is not there calls
  itself on the item again, whatever the depth allowed.
\<close>

lemma cyclic_search_no_result:
  "tryGetImageFromLinkedItem n ''i9'' actor_k graph_k = None"
  by (induction n) (simp_all add: actor_k_def graph_k_def own_properties_def)

subsection \<open>The result for an image\<close>

text \<open>
  C9, as amended. The item of the placeholder is in the graph. When the property that the
  placeholder names is some other truthy value than a rich text element, the resolution
  throws \<open>InvalidElement\<close>. Else, when the image is not in that element and the search
  through the rich text elements of the item and of the items they link to ends without it
  (at some depth \<open>n\<close>), the resolution throws \<open>ImageNotFound\<close> under every configuration,
  however deep the search may go: lenient mode does not lift it. Lenient mode only covers a
  placeholder whose own item is not in the graph: the url is then empty, with a warning
  under advanced logging, and strict mode throws.
\<close>

theorem image_not_found_always_fatal:
  "(getLinkedItem itemCodename = Some linkedItem \<and>
    item_property linkedItem elementName \<noteq> Some (OtherValue True) \<and>
    (\<forall>images cs. item_property linkedItem elementName = Some (RichTextElement images cs) \<longrightarrow>
       find (\<lambda>m. imageId m = imgId) images = None) \<and>
    tryGetImageFromLinkedItem n imgId linkedItem getLinkedItem = Some None \<and> n \<le> m \<longrightarrow>
      getImageResult m config getLinkedItem itemCodename imgId elementName =
        Some (Inl (ImageNotFound imgId itemCodename elementName), []))
   \<and> (getLinkedItem itemCodename = Some linkedItem \<and>
      item_property linkedItem elementName = Some (OtherValue True) \<longrightarrow>
      getImageResult m config getLinkedItem itemCodename imgId elementName =
        Some (Inl (InvalidElement itemCodename elementName), []))
   \<and> (getLinkedItem itemCodename = None \<longrightarrow>
      getImageResult m config getLinkedItem itemCodename imgId elementName =
        (if throwErrorForMissingLinkedItems (rc_queryConfig config) = Some True
         then Some (Inl (ImageItemNotFound itemCodename imgId), [])
         else Some (Inr \<lparr>ir_url = []\<rparr>,
                    if rc_enableAdvancedLogging config
                    then [WarnImageItemMissing imgId itemCodename] else [])))"
proof (intro conjI impI)
  assume a: "getLinkedItem itemCodename = Some linkedItem \<and>
    item_property linkedItem elementName \<noteq> Some (OtherValue True) \<and>
    (\<forall>images cs. item_property linkedItem elementName = Some (RichTextElement images cs) \<longrightarrow>
       find (\<lambda>m. imageId m = imgId) images = None) \<and>
    tryGetImageFromLinkedItem n imgId linkedItem getLinkedItem = Some None \<and> n \<le> m"
  then have search: "tryGetImageFromLinkedItem m imgId linkedItem getLinkedItem = Some None"
    by (intro tryGetImage_mono [of n m]) simp_all
  show "getImageResult m config getLinkedItem itemCodename imgId elementName =
          Some (Inl (ImageNotFound imgId itemCodename elementName), [])"
  proof (cases "item_property linkedItem elementName")
    case None
    then show ?thesis using a search by (simp add: getImageResult_def)
  next
    case (Some e)
    show ?thesis
    proof (cases e)
      case (RichTextElement images cs)
      then have "find (\<lambda>m. imageId m = imgId) images = None" using a Some by simp
      then show ?thesis using a search Some RichTextElement by (simp add: getImageResult_def)
    next
      case (OtherValue t)
      then have "\<not> t" using a Some by auto
      then show ?thesis using a search Some OtherValue by (simp add: getImageResult_def)
    qed
  qed
next
  assume "getLinkedItem itemCodename = Some linkedItem \<and>
      item_property linkedItem elementName = Some (OtherValue True)"
  then show "getImageResult m config getLinkedItem itemCodename imgId elementName =
        Some (Inl (InvalidElement itemCodename elementName), [])"
    by (simp add: getImageResult_def)
next
  assume "getLinkedItem itemCodename = None"
  then show "getImageResult m config getLinkedItem itemCodename imgId elementName =
        (if throwErrorForMissingLinkedItems (rc_queryConfig config) = Some True
         then Some (Inl (ImageItemNotFound itemCodename imgId), [])
         else Some (Inr \<lparr>ir_url = []\<rparr>,
                    if rc_enableAdvancedLogging config
                    then [WarnImageItemMissing imgId itemCodename] else []))"
    by (simp add: getImageResult_def flag_def console_warn_def)
qed

lemma graph_vy_search:
  "tryGetImageFromLinkedItem 1 ''i9'' actor_u graph_vy = Some None"
  "tryGetImageFromLinkedItem 1 ''i9'' actor_v graph_vy = Some None"
  by (simp_all add: actor_u_def actor_v_def actor_y_def graph_vy_def own_properties_def)

theorem image_not_found_always_fatal_witness:
  "graph_vy ''actor_u'' = Some actor_u \<and>
   item_property actor_u ''age'' = Some (OtherValue False) \<and>
   tryGetImageFromLinkedItem 1 ''i9'' actor_u graph_vy = Some None \<and>
   getImageResult 2 lenient_logging graph_vy ''actor_u'' ''i9'' ''age'' =
     Some (Inl (ImageNotFound ''i9'' ''actor_u'' ''age''), []) \<and>
   item_property actor_u ''bio'' = Some (RichTextElement [] [''actor_y'']) \<and>
   getImageResult 2 lenient_logging graph_vy ''actor_u'' ''i9'' ''bio'' =
     Some (Inl (ImageNotFound ''i9'' ''actor_u'' ''bio''), []) \<and>
   item_property actor_u ''system'' = Some (OtherValue True) \<and>
   getImageResult 2 lenient_logging graph_vy ''actor_u'' ''i9'' ''system'' =
     Some (Inl (InvalidElement ''actor_u'' ''system''), []) \<and>
   graph_vy ''actor_z'' = None \<and>
   getImageResult 2 lenient_logging graph_vy ''actor_z'' ''i9'' ''bio'' =
     Some (Inr \<lparr>ir_url = []\<rparr>, [WarnImageItemMissing ''i9'' ''actor_z''])"
  using image_not_found_always_fatal
      [of graph_vy "''actor_u''" actor_u "''age''" "''i9''" 1 2 lenient_logging]
    image_not_found_always_fatal
      [of graph_vy "''actor_u''" actor_u "''bio''" "''i9''" 1 2 lenient_logging]
    image_not_found_always_fatal
      [of graph_vy "''actor_u''" actor_u "''system''" "''i9''" 1 2 lenient_logging]
    image_not_found_always_fatal
      [of graph_vy "''actor_z''" actor_u "''bio''" "''i9''" 1 2 lenient_logging]
    graph_vy_search(1)
  by (simp add: graph_vy_def actor_u_def item_property_def lenient_logging_def
        default_queryConfig_def)

theorem image_not_found_lenient_counterexample:
  "getImageResult 0 lenient graph_xy ''actor_y'' ''i9'' ''bio'' =
     Some (Inl (ImageNotFound ''i9'' ''actor_y'' ''bio''), [])"
  by (simp add: getImageResult_def graph_xy_def actor_y_def item_property_def own_properties_def)

section \<open>Cycles of linked items\<close>

text \<open>
  Two items whose linked-items fields reference each other: the second item finds the first
  one among the processed items, and each is mapped once.
\<close>

lemma cycle_ab_mapped:
  "mapFields 2 cfg_quiet (Some item_a) payload_ab qc_none SharedArray empty_state =
     Some (Inr 0,
           \<lparr>heap = [\<lparr>ti_system = sys_of ''a'', ti_class = None,
                     ti_props = [(''related'', ModularItems [1])]\<rparr>,
                    \<lparr>ti_system = sys_of ''b'', ti_class = None,
                     ti_props = [(''related'', ModularItems [0])]\<rparr>],
            processed = [0, 1], warnings = []\<rparr>)"
  by (simp add: item_a_def item_b_def payload_ab_def payload_lookup_def
        linked_field_def numeral_2_eq_2 mapFields_body_def cfg_quiet_def hasTypeResolver_def
        alloc_def find_processed_def system_codename_def empty_state_def mapField_def
        mapModularField_def set_property_def propertyName_def createContentItem_def
        falsy_name_def sys_of_def)

subsection \<open>The store of generic items\<close>

lemma find_item_intact:
  assumes "\<forall>m \<in> set ms. map_of (ti_props (h ! m)) ''system'' = None"
  shows "\<exists>r. find_item h (Some c) ms = Inr r"
  using assms by (induction ms) (auto simp: system_codename_def)

lemma heap_intact:
  "intact st \<Longrightarrow> a < length (heap st) \<Longrightarrow>
   ti_class (heap st ! a) = None \<and> map_of (ti_props (heap st ! a)) ''system'' = None \<and>
   map_of (ti_props (heap st ! a)) ''propertyResolver'' = None"
  by (auto simp: intact_def)

lemma find_processed_intact:
  assumes "intact st"
  shows "\<exists>r. find_processed st (Some c) = Inr r"
  unfolding find_processed_def
proof (rule find_item_intact, rule ballI)
  fix m assume "m \<in> set (processed st)"
  then have "m < length (heap st)" using assms by (simp add: intact_def)
  then show "map_of (ti_props (heap st ! m)) ''system'' = None"
    using heap_intact [OF assms] by simp
qed

lemma intact_empty: "intact empty_state"
  by (simp add: intact_def empty_state_def)

lemma intact_alloc: "intact st \<Longrightarrow> intact (st\<lparr>heap := heap st @ [createContentItem sys]\<rparr>)"
  by (auto simp: intact_def createContentItem_def)

lemma intact_push:
  "intact st \<Longrightarrow> a < length (heap st) \<Longrightarrow> intact (st\<lparr>processed := processed st @ [a]\<rparr>)"
  by (auto simp: intact_def)

lemma map_of_assign: "map_of (assign k v ps) k' = (if k' = k then Some v else map_of ps k')"
  by (induction ps) auto

lemma intact_set_property:
  assumes st: "intact st" and k: "k \<noteq> ''system''" "k \<noteq> ''propertyResolver''"
  shows "intact (set_property a k v st)"
proof (cases "a < length (heap st)")
  case True
  have old: "ti_class (heap st ! a) = None"
    "map_of (ti_props (heap st ! a)) ''system'' = None"
    "map_of (ti_props (heap st ! a)) ''propertyResolver'' = None"
    using heap_intact [OF st True] by simp_all
  have "t \<in> set ((heap st)[a := (heap st ! a)\<lparr>ti_props := assign k v (ti_props (heap st ! a))\<rparr>]) \<Longrightarrow>
        ti_class t = None \<and> map_of (ti_props t) ''system'' = None \<and>
        map_of (ti_props t) ''propertyResolver'' = None" for t
    using st old k by (auto simp: intact_def map_of_assign dest!: set_update_subset_insert [THEN subsetD])
  then show ?thesis using st by (auto simp: intact_def set_property_def)
next
  case False
  then show ?thesis using st by (simp add: set_property_def intact_def list_update_beyond)
qed

lemma propertyName_intact:
  "intact st \<Longrightarrow> a < length (heap st) \<Longrightarrow> propertyName (heap st ! a) fieldName = Inr fieldName"
  using heap_intact [of st a] by (simp add: propertyName_def falsy_name_def)

lemma set_property_length [simp]: "length (heap (set_property a k v st)) = length (heap st)"
  by (simp add: set_property_def)

subsection \<open>A cycle that is also embedded\<close>

lemma cycle_properties_no_result:
  assumes look: "payload_lookup mc c = Some j" and sysj: "ri_system j = Some sj"
    and rec: "\<forall>s. intact s \<longrightarrow> rec j s = None"
    and st: "intact st" and a: "a < length (heap st)"
  shows "mapProperties rec cfg mc qc a (both_fields c) st = None"
proof -
  obtain r where r: "find_processed st (Some (sys_codename sj)) = Inr r"
    using find_processed_intact [OF st] by blast
  have n1: "propertyName (heap st ! a) ''related'' = Inr ''related''"
    by (rule propertyName_intact [OF st a])
  have linked: "mapField rec cfg (linked_field [c]) mc a qc st =
      (case r of None \<Rightarrow> None | Some p \<Rightarrow> Some (Inr (ModularItems [p]), st))"
    using look sysj r rec st
    by (simp add: mapField_def mapModularField_def linked_field_def split: option.splits)
  show ?thesis
  proof (cases r)
    case None
    then show ?thesis using n1 linked by (simp add: both_fields_def)
  next
    case (Some p)
    define st3 where "st3 = set_property a ''related'' (ModularItems [p]) st"
    have i3: "intact st3" unfolding st3_def by (rule intact_set_property [OF st]) simp_all
    have a3: "a < length (heap st3)" using a by (simp add: st3_def)
    have n2: "propertyName (heap st3 ! a) ''body'' = Inr ''body''"
      by (rule propertyName_intact [OF i3 a3])
    have rich: "mapField rec cfg (rich_field [c]) mc a qc st3 = None"
      using look rec i3 by (simp add: mapField_def mapRichTextField_def rich_field_def)
    show ?thesis using n1 linked Some n2 rich by (simp add: both_fields_def st3_def)
  qed
qed

lemma cycle_body_no_result:
  assumes look: "payload_lookup mc c = Some j" and sysj: "ri_system j = Some sj"
    and it: "ri_system it = Some sys" "ri_elements it = Some (both_fields c)"
    and rec: "\<forall>s. intact s \<longrightarrow> rec j s = None"
    and st: "intact st" and cfg: "\<not> hasTypeResolver cfg (sys_type sys)"
  shows "mapFields_body rec cfg (Some it) mc qc SharedArray st = None"
proof -
  define a where "a = length (heap st)"
  define st1 where "st1 = st\<lparr>heap := heap st @ [createContentItem sys]\<rparr>"
  have i1: "intact st1" unfolding st1_def by (rule intact_alloc [OF st])
  have a1: "a < length (heap st1)" by (simp add: a_def st1_def)
  obtain r where r: "find_processed st1 (Some (sys_codename sys)) = Inr r"
    using find_processed_intact [OF i1] by blast
  define st2 where "st2 = (case r of None \<Rightarrow> st1\<lparr>processed := processed st1 @ [a]\<rparr> | Some m \<Rightarrow> st1)"
  have i2: "intact st2" unfolding st2_def using i1 a1 by (auto split: option.splits intro: intact_push)
  have a2: "a < length (heap st2)" using a1 by (simp add: st2_def split: option.splits)
  have props: "mapProperties rec cfg mc qc a (both_fields c) st2 = None"
    by (rule cycle_properties_no_result [where rec = rec and j = j, OF look sysj rec i2 a2])
  have "mapFields_body rec cfg (Some it) mc qc SharedArray st =
          and_then (mapProperties rec cfg mc qc a (both_fields c) st2) (\<lambda>u st'. Some (Inr a, st'))"
    unfolding mapFields_body_def st2_def st1_def a_def alloc_def
    using it cfg r [unfolded st1_def] by (simp add: Let_def)
  then show ?thesis using props by simp
qed

subsection \<open>No item at any depth\<close>

lemma no_value_simps [simp]:
  "no_value None" "no_value (Some (Inl e, st))" "\<not> no_value (Some (Inr v, st))"
  by (simp_all add: no_value_def)

lemma no_value_first: "no_value r \<Longrightarrow> no_value (and_then r k)"
  by (auto simp: no_value_def and_then_def split: option.splits sum.splits prod.splits)

lemma no_value_second:
  assumes "\<forall>v s. no_value (k v s)"
  shows "no_value (and_then r k)"
proof (cases r)
  case None
  then show ?thesis by simp
next
  case (Some pr)
  obtain res s where pr: "pr = (res, s)" by (cases pr)
  show ?thesis using assms Some pr by (cases res) simp_all
qed

lemma embed_no_value:
  assumes look: "payload_lookup mc c = Some j" and rec: "\<forall>s. no_value (rec j s)"
  shows "no_value (mapField rec cfg (rich_field [c]) mc a qc st)"
proof -
  have "no_value (mapRichTextItems rec (rich_field [c]) mc [c] [] st)"
    using look rec by (simp add: no_value_first)
  then have "no_value (mapRichTextField rec (rich_field [c]) mc st)"
    unfolding mapRichTextField_def by (simp add: rich_field_def no_value_first)
  then show ?thesis by (simp add: mapField_def rich_field_def)
qed

lemma both_fields_no_value:
  assumes look: "payload_lookup mc c = Some j" and rec: "\<forall>s. no_value (rec j s)"
  shows "no_value (mapProperties rec cfg mc qc a (both_fields c) st)"
proof -
  have body: "no_value (mapProperties rec cfg mc qc a [(''body'', rich_field [c])] s)" for s
    using embed_no_value [where rec = rec and j = j, OF look rec, of cfg a qc s]
    by (cases "propertyName (heap s ! a) ''body''") (simp_all add: no_value_first)
  show ?thesis
  proof (cases "propertyName (heap st ! a) ''related''")
    case (Inl e)
    then show ?thesis by (simp add: both_fields_def)
  next
    case (Inr name)
    have eq: "mapProperties rec cfg mc qc a (both_fields c) st =
        and_then (mapField rec cfg (linked_field [c]) mc a qc st)
          (\<lambda>v st'. mapProperties rec cfg mc qc a [(''body'', rich_field [c])]
                      (set_property a name v st'))"
      unfolding both_fields_def
      by (subst mapProperties.simps(2)) (simp add: Inr del: mapProperties.simps)
    show ?thesis unfolding eq by (rule no_value_second) (intro allI body)
  qed
qed

lemma cycle_body_no_value:
  assumes look: "payload_lookup mc c = Some j" and rec: "\<forall>s. no_value (rec j s)"
    and it: "ri_elements it = Some (both_fields c)"
  shows "no_value (mapFields_body rec cfg (Some it) mc qc SharedArray st)"
proof (cases "ri_system it")
  case None
  then show ?thesis by (simp add: mapFields_body_def)
next
  case (Some sys)
  have "no_value (and_then (mapProperties rec cfg mc qc a (both_fields c) s) k)" for a s k
    by (rule no_value_first) (rule both_fields_no_value [where rec = rec and j = j, OF look rec])
  then show ?thesis using Some it
    by (auto simp: mapFields_body_def alloc_def Let_def split: sum.splits)
qed

lemma payload_pq_lookup:
  "payload_lookup payload_pq ''p'' = Some item_p" "payload_lookup payload_pq ''q'' = Some item_q"
  by (simp_all add: payload_pq_def payload_lookup_def)

lemma item_pq_simps:
  "ri_system item_p = Some (sys_of ''p'')" "ri_elements item_p = Some (both_fields ''q'')"
  "ri_system item_q = Some (sys_of ''q'')" "ri_elements item_q = Some (both_fields ''p'')"
  by (simp_all add: item_p_def item_q_def)

lemma cycle_no_value:
  "no_value (mapFields n cfg (Some item_p) payload_pq qc SharedArray st) \<and>
   no_value (mapFields n cfg (Some item_q) payload_pq qc SharedArray st)"
proof (induction n arbitrary: st)
  case 0
  show ?case
    using cycle_body_no_value [OF payload_pq_lookup(2) _ item_pq_simps(2), of "\<lambda>it s. None"]
      cycle_body_no_value [OF payload_pq_lookup(1) _ item_pq_simps(4), of "\<lambda>it s. None"]
    by simp
next
  case (Suc n)
  show ?case
    using cycle_body_no_value [OF payload_pq_lookup(2) _ item_pq_simps(2),
        of "\<lambda>it s. mapFields n cfg (Some it) payload_pq qc SharedArray s"]
      cycle_body_no_value [OF payload_pq_lookup(1) _ item_pq_simps(4),
        of "\<lambda>it s. mapFields n cfg (Some it) payload_pq qc SharedArray s"]
    by (simp add: Suc.IH)
qed

lemma cycle_no_result:
  "intact st \<Longrightarrow> \<not> hasTypeResolver cfg ''article'' \<Longrightarrow>
   mapFields n cfg (Some item_p) payload_pq qc SharedArray st = None \<and>
   mapFields n cfg (Some item_q) payload_pq qc SharedArray st = None"
proof (induction n arbitrary: st)
  case 0
  have cfg: "\<not> hasTypeResolver cfg (sys_type (sys_of c))" for c
    using "0.prems"(2) by (simp add: sys_of_def)
  show ?case
    using cycle_body_no_result [OF payload_pq_lookup(2) item_pq_simps(3) item_pq_simps(1,2),
        of "\<lambda>it s. None" st cfg qc]
      cycle_body_no_result [OF payload_pq_lookup(1) item_pq_simps(1) item_pq_simps(3,4),
        of "\<lambda>it s. None" st cfg qc]
      "0.prems"(1) cfg
    by simp
next
  case (Suc n)
  have cfg: "\<not> hasTypeResolver cfg (sys_type (sys_of c))" for c
    using Suc.prems(2) by (simp add: sys_of_def)
  have IH: "intact s \<Longrightarrow> mapFields n cfg (Some item_p) payload_pq qc SharedArray s = None \<and>
            mapFields n cfg (Some item_q) payload_pq qc SharedArray s = None" for s
    using Suc.IH [of s] Suc.prems(2) by simp
  show ?case
    using cycle_body_no_result [OF payload_pq_lookup(2) item_pq_simps(3) item_pq_simps(1,2),
        of "\<lambda>it s. mapFields n cfg (Some it) payload_pq qc SharedArray s" st cfg qc]
      cycle_body_no_result [OF payload_pq_lookup(1) item_pq_simps(1) item_pq_simps(3,4),
        of "\<lambda>it s. mapFields n cfg (Some it) payload_pq qc SharedArray s" st cfg qc]
      Suc.prems(1) cfg IH
    by simp
qed

text \<open>
  C1: the response graph of \<open>item_p\<close> and \<open>item_q\<close> contains a cycle (the linked-items
  field of each references the other one), and by the claim mapping it terminates with
  both items processed once. Each item also embeds the other one in its rich text, and
  \<^verbatim>\<open>mapRichTextField\<close> calls \<^verbatim>\<open>mapFields\<close> without looking at the processed items: the
  mapping of either item returns no item, at any depth, from any store and under every
  configuration. From the empty \<^verbatim>\<open>processedItems\<close>, and from every store of generic items
  with their members intact, under every configuration that registers no class for the
  type of the items, nothing else ends the recursion either: there is no result at any
  depth.
\<close>

theorem cycle_with_embeds_no_result:
  "(\<forall>a st'. mapFields n cfg (Some item_p) payload_pq qc SharedArray st \<noteq> Some (Inr a, st')) \<and>
   (\<forall>a st'. mapFields n cfg (Some item_q) payload_pq qc SharedArray st \<noteq> Some (Inr a, st')) \<and>
   (intact st \<and> \<not> hasTypeResolver cfg ''article'' \<longrightarrow>
      mapFields n cfg (Some item_p) payload_pq qc SharedArray st = None \<and>
      mapFields n cfg (Some item_q) payload_pq qc SharedArray st = None)"
proof (intro conjI allI impI)
  fix a st'
  show "mapFields n cfg (Some item_p) payload_pq qc SharedArray st \<noteq> Some (Inr a, st')"
    using cycle_no_value [of n cfg qc st] by auto
  show "mapFields n cfg (Some item_q) payload_pq qc SharedArray st \<noteq> Some (Inr a, st')"
    using cycle_no_value [of n cfg qc st] by auto
next
  assume a: "intact st \<and> \<not> hasTypeResolver cfg ''article''"
  show "mapFields n cfg (Some item_p) payload_pq qc SharedArray st = None"
    using cycle_no_result [of st cfg n qc] a by simp
  show "mapFields n cfg (Some item_q) payload_pq qc SharedArray st = None"
    using cycle_no_result [of st cfg n qc] a by simp
qed

theorem cycle_with_embeds_no_result_witness:
  "intact empty_state \<and> \<not> hasTypeResolver cfg_quiet ''article'' \<and>
   mapFields 7 cfg_quiet (Some item_p) payload_pq qc_none SharedArray empty_state = None \<and>
   mapFields 7 cfg_logging (Some item_q) payload_pq qc_none SharedArray empty_state = None"
  using cycle_with_embeds_no_result [where st = empty_state and cfg = cfg_quiet and n = 7 and qc = qc_none]
    cycle_with_embeds_no_result [where st = empty_state and cfg = cfg_logging and n = 7 and qc = qc_none]
  by (simp add: intact_empty hasTypeResolver_def cfg_quiet_def cfg_logging_def)

end
